theory Spec2Isabelle
  imports Complex_Main "HOL-Library.Multiset"
begin

section \<open>Geo distance calculator (\<open>haversine_km\<close> of \<open>app.py\<close>)\<close>

text \<open>
  Python floats are binary64 values. The operations on them belong to the interpreter
  and the C library, not to the repository, and they round: they are a parameter of the
  model, a record of the operations that \<open>haversine_km\<close> calls, each giving the float
  that the platform returns. The finite floats are real numbers; infinities and NaN are
  not represented. \<open>math.sqrt\<close> and \<open>math.asin\<close> raise \<open>ValueError\<close> outside their
  domain, and the model keeps both checks.
\<close>

datatype py_error = ValueError | OverflowError

record arith =
  fadd :: "real \<Rightarrow> real \<Rightarrow> real"
  fsub :: "real \<Rightarrow> real \<Rightarrow> real"
  fmul :: "real \<Rightarrow> real \<Rightarrow> real"
  fdiv :: "real \<Rightarrow> real \<Rightarrow> real"
  fpow2 :: "real \<Rightarrow> real"
  m_radians :: "real \<Rightarrow> real"
  m_sin :: "real \<Rightarrow> real"
  m_cos :: "real \<Rightarrow> real"
  m_sqrt :: "real \<Rightarrow> real"
  m_asin :: "real \<Rightarrow> real"

definition py_sqrt :: "arith \<Rightarrow> real \<Rightarrow> py_error + real" where
  "py_sqrt m x = (if x < 0 then Inl ValueError else Inr (m_sqrt m x))"

definition py_asin :: "arith \<Rightarrow> real \<Rightarrow> py_error + real" where
  "py_asin m x = (if x < - 1 \<or> 1 < x then Inl ValueError else Inr (m_asin m x))"

definition haversine_a :: "arith \<Rightarrow> real \<Rightarrow> real \<Rightarrow> real \<Rightarrow> real \<Rightarrow> real" where
  "haversine_a m lat1 lon1 lat2 lon2 =
     (let dlat = m_radians m (fsub m lat2 lat1);
          dlon = m_radians m (fsub m lon2 lon1)
      in fadd m (fpow2 m (m_sin m (fdiv m dlat 2)))
           (fmul m (fmul m (m_cos m (m_radians m lat1)) (m_cos m (m_radians m lat2)))
              (fpow2 m (m_sin m (fdiv m dlon 2)))))"

definition haversine_km :: "arith \<Rightarrow> real \<Rightarrow> real \<Rightarrow> real \<Rightarrow> real \<Rightarrow> py_error + real" where
  "haversine_km m lat1 lon1 lat2 lon2 =
     (let a = haversine_a m lat1 lon1 lat2 lon2
      in case py_sqrt m a of
           Inl err \<Rightarrow> Inl err
         | Inr r \<Rightarrow>
             (case py_asin m r of
                Inl err \<Rightarrow> Inl err
              | Inr t \<Rightarrow> (let c = fmul m 2 t; R = 6371 in Inr (fmul m R c))))"

text \<open>Arithmetic without rounding: the operations of the real numbers.\<close>

definition exact :: arith where
  "exact = \<lparr>fadd = (+), fsub = (-), fmul = (*), fdiv = (/), fpow2 = (\<lambda>x. x\<^sup>2),
     m_radians = (\<lambda>x. x * (pi / 180)), m_sin = sin, m_cos = cos, m_sqrt = sqrt,
     m_asin = arcsin\<rparr>"

text \<open>
  What binary64 arithmetic keeps of the signs: subtraction, the conversion to radians,
  halving and the sine are odd, squaring is even, multiplication commutes, and the
  operations are exact at zero.
\<close>

definition sign_symmetric :: "arith \<Rightarrow> bool" where
  "sign_symmetric m =
     ((\<forall>x y. fsub m y x = - fsub m x y)
      \<and> (\<forall>x. m_radians m (- x) = - m_radians m x)
      \<and> (\<forall>x. fdiv m (- x) 2 = - fdiv m x 2)
      \<and> (\<forall>x. m_sin m (- x) = - m_sin m x)
      \<and> (\<forall>x. fpow2 m (- x) = fpow2 m x)
      \<and> (\<forall>x y. fmul m x y = fmul m y x)
      \<and> fpow2 m 0 = 0 \<and> (\<forall>x. fmul m x 0 = 0) \<and> fadd m 0 0 = 0
      \<and> m_sqrt m 0 = 0 \<and> m_asin m 0 = 0)"

text \<open>
  The binary64 results of CPython 3.11 at the operands that occur for the coordinates
  \<open>(-64, 0)\<close> and \<open>(64.00000001, 180)\<close>, each written as the exact fraction of the float;
  \<open>probe_lat\<close> is the float that \<open>64.00000001\<close> denotes. Halving is exact at these
  operands. At operands that do not occur there the tables fall back on the exact
  operation.
\<close>

definition probe_lat :: real where
  "probe_lat = 4503599628074183 / 70368744177664"

definition probe_sub :: "real \<Rightarrow> real \<Rightarrow> real" where
  "probe_sub x y =
     (if x = probe_lat \<and> y = - 64 then 1125899906930585 / 8796093022208 else x - y)"

definition probe_radians :: "real \<Rightarrow> real" where
  "probe_radians x =
     (if x = 1125899906930585 / 8796093022208 then 5030569068502127 / 2251799813685248
      else if x = 180 then 884279719003555 / 281474976710656
      else if x = - 64 then - (5030569068109113 / 4503599627370496)
      else if x = probe_lat then 5030569068895139 / 4503599627370496
      else x * (pi / 180))"

definition probe_sin :: "real \<Rightarrow> real" where
  "probe_sin x =
     (if x = 5030569068502127 / 4503599627370496 then 4047808532168035 / 4503599627370496
      else if x = 884279719003555 / 562949953421312 then 1
      else sin x)"

definition probe_cos :: "real \<Rightarrow> real" where
  "probe_cos x =
     (if x = - (5030569068109113 / 4503599627370496)
      then 7896992533317065 / 18014398509481984
      else if x = 5030569068895139 / 4503599627370496
      then 7896992530491163 / 18014398509481984
      else cos x)"

definition probe_pow2 :: "real \<Rightarrow> real" where
  "probe_pow2 x =
     (if x = 4047808532168035 / 4503599627370496 then 1819073104713225 / 2251799813685248
      else x\<^sup>2)"

definition probe_mul :: "real \<Rightarrow> real \<Rightarrow> real" where
  "probe_mul x y =
     (if x = 7896992533317065 / 18014398509481984 \<and> y = 7896992530491163 / 18014398509481984
      then 1730906835888095 / 9007199254740992 else x * y)"

definition probe_add :: "real \<Rightarrow> real \<Rightarrow> real" where
  "probe_add x y =
     (if x = 1819073104713225 / 2251799813685248 \<and> y = 1730906835888095 / 9007199254740992
      then 2251799813685249 / 2251799813685248 else x + y)"

definition probe_sqrt :: "real \<Rightarrow> real" where
  "probe_sqrt x =
     (if x = 2251799813685249 / 2251799813685248 then 4503599627370497 / 4503599627370496
      else sqrt x)"

definition binary64_probe :: arith where
  "binary64_probe =
     \<lparr>fadd = probe_add, fsub = probe_sub, fmul = probe_mul, fdiv = (/),
      fpow2 = probe_pow2, m_radians = probe_radians, m_sin = probe_sin,
      m_cos = probe_cos, m_sqrt = probe_sqrt, m_asin = arcsin\<rparr>"

text \<open>
  The formula as the specification words it: the differences and the latitudes in
  radians, \<open>a = sin\<^sup>2(\<Delta>lat/2) + cos(lat1) cos(lat2) sin\<^sup>2(\<Delta>lon/2)\<close>, distance
  \<open>2 R asin(\<surd>a)\<close> with \<open>R = 6371\<close>.
\<close>

definition spec_a :: "real \<Rightarrow> real \<Rightarrow> real \<Rightarrow> real \<Rightarrow> real" where
  "spec_a lat1 lon1 lat2 lon2 =
     (sin (((lat2 - lat1) * pi / 180) / 2))\<^sup>2
       + cos (lat1 * pi / 180) * cos (lat2 * pi / 180)
         * (sin (((lon2 - lon1) * pi / 180) / 2))\<^sup>2"

definition spec_distance :: "real \<Rightarrow> real \<Rightarrow> real \<Rightarrow> real \<Rightarrow> real" where
  "spec_distance lat1 lon1 lat2 lon2 = 2 * 6371 * arcsin (sqrt (spec_a lat1 lon1 lat2 lon2))"

section \<open>The record store\<close>

text \<open>
  Modelled from the spec: \<open>models.py\<close> (the classes \<open>Event\<close>, \<open>EventParticipant\<close> and
  \<open>Follow\<close>, with \<open>Event.participants\<close> and \<open>Event.to_dict\<close>) is not among the source
  files. The tables carry the columns that the data model of the specification lists and
  that the constructor calls of \<open>app.py\<close> set. A table is the list of its rows in insertion
  order, so that two rows with equal columns are two rows; the surrogate key of a dependent
  row is assigned by the store, is never read by a handler and is left out.

  The store is the SQLite database that \<open>create_app\<close> configures. An integer column holds
  signed 64-bit integers: binding a Python integer outside that range to a statement
  raises \<open>OverflowError\<close>. A text bound to an integer column is read as an integer where
  the type affinity of the store makes it one, and is kept as text otherwise;
  \<open>text_affinity\<close> is that reading. It belongs to the store, so it is a field of the
  model's store, the same in every state a handler produces.
\<close>

datatype id_value = IntId int | TextId string

definition in_store_range :: "int \<Rightarrow> bool" where
  "in_store_range i = (- (2 ^ 63) \<le> i \<and> i < 2 ^ 63)"

record event =
  ev_id :: int
  name :: string
  sport :: string
  location :: string
  event_notes :: "string option"
  max_players :: int
  event_date :: "string option"
  latitude :: "real option"
  longitude :: "real option"
  skill_level :: "string option"
  host_user_id :: "int option"

record event_participant =
  event_id :: int
  user_id :: "int option"
  player_name :: string
  team :: "string option"

record follow =
  follower_id :: id_value
  followee_id :: int

record store =
  events :: "event list"
  participants :: "event_participant list"
  follows :: "follow list"
  text_affinity :: "string \<Rightarrow> int option"

text \<open>
  Modelled from the spec: the relationship \<open>Event.participants\<close> of \<open>models.py\<close>;
  \<open>event.participants.count()\<close> is the live number of rows that reference the event.
\<close>

definition count_participants :: "store \<Rightarrow> event \<Rightarrow> nat" where
  "count_participants s e = length (filter (\<lambda>p. event_id p = ev_id e) (participants s))"

text \<open>
  Modelled from the spec: \<open>Event.to_dict\<close>, the columns of the event plus the computed
  participant count.
\<close>

record event_dict =
  columns :: event
  participants_count :: nat

definition to_dict :: "store \<Rightarrow> event \<Rightarrow> event_dict" where
  "to_dict s e = \<lparr>columns = e, participants_count = count_participants s e\<rparr>"

text \<open>\<open>Event.query.get(event_id)\<close>; \<open>get_or_404\<close> answers 404 where it finds nothing.\<close>

definition get_event :: "store \<Rightarrow> int \<Rightarrow> event option" where
  "get_event s i = find (\<lambda>e. ev_id e = i) (events s)"

text \<open>\<open>EventParticipant.query.filter_by(event_id=..., user_id=...).first()\<close>.\<close>

definition first_participant :: "store \<Rightarrow> int \<Rightarrow> int \<Rightarrow> event_participant option" where
  "first_participant s eid uid =
     find (\<lambda>p. event_id p = eid \<and> user_id p = Some uid) (participants s)"

text \<open>\<open>Follow.query.filter_by(follower_id=..., followee_id=...).first()\<close>.\<close>

definition first_follow :: "store \<Rightarrow> id_value \<Rightarrow> int \<Rightarrow> follow option" where
  "first_follow s fid uid =
     find (\<lambda>r. follower_id r = fid \<and> followee_id r = uid) (follows s)"

text \<open>
  The value that the store works with when a handler binds a JSON value to the integer
  column \<open>follower_id\<close>, or the exception that binding it raises.
\<close>

definition bind_id :: "store \<Rightarrow> id_value \<Rightarrow> py_error + id_value" where
  "bind_id s v =
     (case v of
        IntId i \<Rightarrow> if in_store_range i then Inr (IntId i) else Inl OverflowError
      | TextId t \<Rightarrow>
          (case text_affinity s t of Some i \<Rightarrow> Inr (IntId i) | None \<Rightarrow> Inr (TextId t)))"

section \<open>Requests and responses\<close>

text \<open>
  A key of a JSON body is absent, \<open>null\<close> or carries a value; \<open>data.get(key)\<close> reads the
  first two as \<open>None\<close>, \<open>data.get(key, default)\<close> only replaces an absent key. Identifiers
  are integers and names are strings, as the data model types them; the \<open>follower_id\<close>
  of \<open>follow_user\<close>, which the handler compares with \<open>==\<close> before the store sees it, is a
  JSON integer or a JSON string.
\<close>

datatype 'a field = Absent | Null | Val 'a

fun get :: "'a field \<Rightarrow> 'a option" where
  "get Absent = None"
| "get Null = None"
| "get (Val v) = Some v"

fun get_default :: "'a field \<Rightarrow> 'a \<Rightarrow> 'a option" where
  "get_default Absent d = Some d"
| "get_default Null d = None"
| "get_default (Val v) d = Some v"

record join_data =
  player_name_key :: "string field"
  team_key :: "string field"
  user_id_key :: "int field"

record leave_data =
  leave_user_id_key :: "int field"

record follow_data =
  follower_id_key :: "id_value field"

text \<open>Python's \<open>==\<close> between a JSON value and the integer of the path.\<close>

fun py_eq :: "id_value \<Rightarrow> int \<Rightarrow> bool" where
  "py_eq (IntId i) u = (i = u)"
| "py_eq (TextId t) u = False"

datatype body =
    Error string
  | Message string
  | MessageEvent string event_dict
  | NotFound

type_synonym response = "body \<times> nat"

text \<open>
  What \<open>db.session.add\<close> and \<open>db.session.commit\<close> do inside the \<open>try\<close> block of
  \<open>join_event\<close>: the row is stored, or the store raises and the handler rolls back.
\<close>

datatype commit = Committed | IntegrityError | OtherError

section \<open>Membership ledger (\<open>join_event\<close>, \<open>leave_event\<close>)\<close>

text \<open>
  In \<open>join_event\<close> the event id and the user id are taken within the range of the store:
  the statements about it are about an event that was found and rows that exist.
\<close>

definition join_event :: "store \<Rightarrow> int \<Rightarrow> join_data option \<Rightarrow> commit \<Rightarrow> response \<times> store" where
  "join_event s eid data oc =
     (case data of
        None \<Rightarrow> ((Error ''Player name is required'', 400), s)
      | Some d \<Rightarrow>
          (case get (player_name_key d) of
             None \<Rightarrow> ((Error ''Player name is required'', 400), s)
           | Some pn \<Rightarrow>
               if pn = [] then ((Error ''Player name is required'', 400), s)
               else
                 (case get_event s eid of
                    None \<Rightarrow> ((NotFound, 404), s)
                  | Some ev \<Rightarrow>
                      (let tm = get_default (team_key d) ''team_a'';
                           uid = get (user_id_key d)
                       in if max_players ev \<le> int (count_participants s ev)
                          then ((Error ''Event is full'', 409), s)
                          else
                            (case (case uid of
                                     None \<Rightarrow> None
                                   | Some u \<Rightarrow> first_participant s eid u) of
                               Some existing \<Rightarrow>
                                 ((MessageEvent ''Already joined'' (to_dict s ev), 200), s)
                             | None \<Rightarrow>
                                 (case oc of
                                    Committed \<Rightarrow>
                                      (let s' = s\<lparr>participants := participants s @
                                                  [\<lparr>event_id = eid, user_id = uid,
                                                    player_name = pn, team = tm\<rparr>]\<rparr>
                                       in ((MessageEvent ''Successfully joined event''
                                              (to_dict s' ev), 200), s'))
                                  | IntegrityError \<Rightarrow>
                                      ((Error ''Failed to join event'', 409), s)
                                  | OtherError \<Rightarrow>
                                      ((Error ''Failed to join event'', 500), s)))))))"

text \<open>
  \<open>leave_event\<close> and the two follow handlers have no \<open>try\<close> block. An exception of the
  store leaves the handler unanswered: the result is \<open>Inl\<close>, the client gets status 500 and
  nothing is written.
\<close>

definition leave_event ::
  "store \<Rightarrow> int \<Rightarrow> leave_data option \<Rightarrow> py_error + (response \<times> store)" where
  "leave_event s eid data =
     (case (case data of None \<Rightarrow> None | Some d \<Rightarrow> get (leave_user_id_key d)) of
        None \<Rightarrow> Inr ((Error ''user_id is required'', 400), s)
      | Some uid \<Rightarrow>
          if \<not> (in_store_range eid \<and> in_store_range uid) then Inl OverflowError
          else
            (case first_participant s eid uid of
               None \<Rightarrow> Inr ((Message ''Not a participant'', 200), s)
             | Some p \<Rightarrow>
                 Inr ((Message ''Left event'', 200),
                      s\<lparr>participants := remove1 p (participants s)\<rparr>)))"

section \<open>Follow handlers (\<open>follow_user\<close>, \<open>unfollow_user\<close>)\<close>

definition follow_user ::
  "store \<Rightarrow> int \<Rightarrow> follow_data option \<Rightarrow> py_error + (response \<times> store)" where
  "follow_user s uid data =
     (case (case data of None \<Rightarrow> None | Some d \<Rightarrow> get (follower_id_key d)) of
        None \<Rightarrow> Inr ((Error ''follower_id is required'', 400), s)
      | Some v \<Rightarrow>
          if py_eq v uid then Inr ((Error ''cannot follow self'', 400), s)
          else
            (case bind_id s v of
               Inl err \<Rightarrow> Inl err
             | Inr fid \<Rightarrow>
                 if \<not> in_store_range uid then Inl OverflowError
                 else
                   (case first_follow s fid uid of
                      Some ex \<Rightarrow> Inr ((Message ''Already following'', 200), s)
                    | None \<Rightarrow>
                        Inr ((Message ''Followed'', 200),
                             s\<lparr>follows := follows s
                                  @ [\<lparr>follower_id = fid, followee_id = uid\<rparr>]\<rparr>))))"

text \<open>The \<open>follower_id\<close> of \<open>unfollow_user\<close> is a query argument parsed with \<open>type=int\<close>.\<close>

definition unfollow_user ::
  "store \<Rightarrow> int \<Rightarrow> int option \<Rightarrow> py_error + (response \<times> store)" where
  "unfollow_user s uid follower =
     (case follower of
        None \<Rightarrow> Inr ((Error ''follower_id is required'', 400), s)
      | Some fid \<Rightarrow>
          if \<not> (in_store_range fid \<and> in_store_range uid) then Inl OverflowError
          else
            (case first_follow s (IntId fid) uid of
               None \<Rightarrow> Inr ((Message ''Not following'', 200), s)
             | Some f \<Rightarrow>
                 Inr ((Message ''Unfollowed'', 200),
                      s\<lparr>follows := remove1 f (follows s)\<rparr>)))"

section \<open>Sequences of requests\<close>

datatype request =
    Join int "join_data option" commit
  | Leave int "leave_data option"
  | Follow int "follow_data option"
  | Unfollow int "int option"

text \<open>The store after a request: that of the answer, or the old one after an exception.\<close>

definition after :: "store \<Rightarrow> py_error + (response \<times> store) \<Rightarrow> store" where
  "after s r = (case r of Inl err \<Rightarrow> s | Inr (resp, s') \<Rightarrow> s')"

fun handle :: "store \<Rightarrow> request \<Rightarrow> store" where
  "handle s (Join eid data oc) = snd (join_event s eid data oc)"
| "handle s (Leave eid data) = after s (leave_event s eid data)"
| "handle s (Follow uid data) = after s (follow_user s uid data)"
| "handle s (Unfollow uid follower) = after s (unfollow_user s uid follower)"

fun serve :: "store \<Rightarrow> request list \<Rightarrow> store" where
  "serve s [] = s"
| "serve s (r # rs) = serve (handle s r) rs"

text \<open>A request whose follower id, if it is a follow, is not a JSON string.\<close>

fun integer_ids :: "request \<Rightarrow> bool" where
  "integer_ids (Follow uid (Some d)) =
     (case get (follower_id_key d) of Some (TextId t) \<Rightarrow> False | _ \<Rightarrow> True)"
| "integer_ids r = True"

section \<open>Discovery ranker (\<open>nearby_events\<close>)\<close>

record nearby_item =
  item :: event_dict
  distance_km :: "real option"

definition event_distance ::
  "arith \<Rightarrow> real option \<Rightarrow> real option \<Rightarrow> event \<Rightarrow> py_error + real option" where
  "event_distance m lat lng e =
     (case (lat, lng, latitude e, longitude e) of
        (Some la, Some lo, Some ela, Some elo) \<Rightarrow>
          (case haversine_km m la lo ela elo of
             Inl err \<Rightarrow> Inl err
           | Inr d \<Rightarrow> Inr (Some d))
      | _ \<Rightarrow> Inr None)"

fun nearby_loop ::
  "arith \<Rightarrow> store \<Rightarrow> real option \<Rightarrow> real option \<Rightarrow> event list \<Rightarrow> nearby_item list
    \<Rightarrow> py_error + nearby_item list" where
  "nearby_loop m s lat lng [] out = Inr out"
| "nearby_loop m s lat lng (e # es) out =
     (case event_distance m lat lng e of
        Inl err \<Rightarrow> Inl err
      | Inr d \<Rightarrow> nearby_loop m s lat lng es (out @ [\<lparr>item = to_dict s e, distance_km = d\<rparr>]))"

definition sort_key_of :: "nearby_item \<Rightarrow> real" where
  "sort_key_of x = (case distance_km x of Some d \<Rightarrow> d | None \<Rightarrow> 1000000000)"

text \<open>
  \<open>list.sort(key=...)\<close> is a stable sort; so is \<open>sort_key\<close>, and a stable sort has one
  result. The handler has no \<open>try\<close> block: an exception of \<open>haversine_km\<close> leaves it
  unanswered (\<open>Inl\<close>, status 500).
\<close>

definition nearby_events ::
  "arith \<Rightarrow> store \<Rightarrow> real option \<Rightarrow> real option \<Rightarrow> py_error + (nearby_item list \<times> nat)" where
  "nearby_events m s lat lng =
     (case nearby_loop m s lat lng (events s) [] of
        Inl err \<Rightarrow> Inl err
      | Inr out \<Rightarrow> Inr (sort_key sort_key_of out, 200))"

section \<open>Invariants of the store\<close>

text \<open>The primary key of \<open>Event\<close>: no two events share an id.\<close>

definition events_keyed :: "store \<Rightarrow> bool" where
  "events_keyed s = distinct (map ev_id (events s))"

text \<open>Capacity: no event has more participants than \<open>max_players\<close>.\<close>

definition capacity_ok :: "store \<Rightarrow> bool" where
  "capacity_ok s = list_all (\<lambda>e. int (count_participants s e) \<le> max_players e) (events s)"

text \<open>Membership: the rows with a user id are pairwise different in (event, user).\<close>

definition membership_key :: "event_participant \<Rightarrow> int \<times> int option" where
  "membership_key p = (event_id p, user_id p)"

definition membership_unique :: "store \<Rightarrow> bool" where
  "membership_unique s =
     distinct (map membership_key (filter (\<lambda>p. user_id p \<noteq> None) (participants s)))"

definition memberships :: "store \<Rightarrow> int \<Rightarrow> int \<Rightarrow> event_participant list" where
  "memberships s eid uid =
     filter (\<lambda>p. event_id p = eid \<and> user_id p = Some uid) (participants s)"

text \<open>Follow: no row follows itself, and no pair has two rows.\<close>

definition follow_rows :: "store \<Rightarrow> int \<Rightarrow> int \<Rightarrow> follow list" where
  "follow_rows s fid uid =
     filter (\<lambda>r. follower_id r = IntId fid \<and> followee_id r = uid) (follows s)"

definition follows_ok :: "store \<Rightarrow> bool" where
  "follows_ok s =
     (list_all (\<lambda>r. follower_id r \<noteq> IntId (followee_id r)) (follows s)
      \<and> distinct (follows s))"

section \<open>Auxiliary definitions and example data\<close>

text \<open>
  The row that the constructor call of \<open>join_event\<close> builds, and the condition under which
  its duplicate lookup finds nothing.
\<close>

definition new_row :: "int \<Rightarrow> join_data \<Rightarrow> string \<Rightarrow> event_participant" where
  "new_row eid d pn = \<lparr>event_id = eid, user_id = get (user_id_key d), player_name = pn,
              team = get_default (team_key d) ''team_a''\<rparr>"

definition not_yet_member :: "store \<Rightarrow> int \<Rightarrow> join_data \<Rightarrow> bool" where
  "not_yet_member s eid d =
     (case get (user_id_key d) of None \<Rightarrow> True | Some u \<Rightarrow> memberships s eid u = [])"

text \<open>
  The item of the discovery result as the specification words it: the event with the
  distance of the formula when it carries both coordinates, and no distance otherwise.
\<close>

definition spec_item :: "store \<Rightarrow> real \<Rightarrow> real \<Rightarrow> event \<Rightarrow> nearby_item" where
  "spec_item s la lo e =
     \<lparr>item = to_dict s e,
      distance_km = (case (latitude e, longitude e) of
                       (Some ela, Some elo) \<Rightarrow> Some (spec_distance la lo ela elo)
                     | _ \<Rightarrow> None)\<rparr>"

text \<open>Example data: events, players and stores.\<close>

definition court :: event where
  "court = \<lparr>ev_id = 1, name = ''Court'', sport = ''basketball'', location = ''Gym'',
     event_notes = None, max_players = 10, event_date = None,
     latitude = Some 0, longitude = Some 0, skill_level = None, host_user_id = None\<rparr>"

text \<open>A reading of texts for the example stores: an unsigned decimal literal.\<close>

fun read_digits :: "nat \<Rightarrow> string \<Rightarrow> nat option" where
  "read_digits acc [] = Some acc"
| "read_digits acc (c # cs) =
     (if 48 \<le> (of_char c :: nat) \<and> (of_char c :: nat) \<le> 57
      then read_digits (10 * acc + (of_char c - 48)) cs else None)"

definition decimal_text :: "string \<Rightarrow> int option" where
  "decimal_text t = (if t = [] then None else map_option int (read_digits 0 t))"

definition polar_store :: store where
  "polar_store = \<lparr>events = [court\<lparr>latitude := Some probe_lat, longitude := Some 180\<rparr>],
     participants = [], follows = [], text_affinity = decimal_text\<rparr>"

definition pickup :: event where
  "pickup = court\<lparr>ev_id := 7, name := ''Pickup'', max_players := 1\<rparr>"

definition league :: event where
  "league = court\<lparr>ev_id := 8, name := ''League'', max_players := 2\<rparr>"

definition ann :: join_data where
  "ann = \<lparr>player_name_key = Val ''Ann'', team_key = Absent, user_id_key = Val 5\<rparr>"

definition bob :: join_data where
  "bob = \<lparr>player_name_key = Val ''Bob'', team_key = Val ''team_b'', user_id_key = Val 6\<rparr>"

definition guest :: join_data where
  "guest = \<lparr>player_name_key = Val ''Guest'', team_key = Absent, user_id_key = Absent\<rparr>"

definition ann_row :: "int \<Rightarrow> event_participant" where
  "ann_row eid = \<lparr>event_id = eid, user_id = Some 5, player_name = ''Ann'', team = Some ''team_a''\<rparr>"

definition guest_row :: "int \<Rightarrow> event_participant" where
  "guest_row eid = \<lparr>event_id = eid, user_id = None, player_name = ''Guest'', team = Some ''team_a''\<rparr>"

definition club :: store where
  "club = \<lparr>events = [pickup, league], participants = [], follows = [],
     text_affinity = decimal_text\<rparr>"

section \<open>Proofs: the geo distance calculator\<close>

subsection \<open>Without rounding the haversine term stays between 0 and 1\<close>

lemma half_angle_product:
  "(sin ((y - x) / 2))\<^sup>2 + cos x * cos y = (1 + cos (x + y)) / (2::real)"
proof -
  have t: "2 * ((y - x) / 2) = y - x"
    by argo
  have d: "cos (y - x) = 1 - 2 * (sin ((y - x) / 2))\<^sup>2"
    using cos_double_sin [of "(y - x) / 2"] unfolding t .
  have p: "cos x * cos y = (cos (x - y) + cos (x + y)) / 2"
    by (rule cos_times_cos)
  have m: "cos (x - y) = cos (y - x)"
    using cos_minus [of "y - x"] by simp
  from d p m show ?thesis by (simp add: field_simps)
qed

lemma haversine_term_bounds:
  fixes x y s h :: real
  assumes s: "0 \<le> s" "s \<le> 1"
    and h: "h = (sin ((y - x) / 2))\<^sup>2"
  shows "0 \<le> h + cos x * cos y * s" and "h + cos x * cos y * s \<le> 1"
proof -
  define p where "p = cos x * cos y"
  define q where "q = p * s"
  have h0: "0 \<le> h" using h by simp
  have h1: "h \<le> 1" using h by (simp add: abs_square_le_1)
  have "h + cos x * cos y = (1 + cos (x + y)) / 2"
    using h half_angle_product [of y x] by simp
  then have k: "h + p = (1 + cos (x + y)) / 2" by (simp only: p_def)
  have c1: "cos (x + y) \<le> 1" and c2: "- 1 \<le> cos (x + y)" by simp_all
  have pos: "0 \<le> q \<and> q \<le> p" if "0 \<le> p"
    using that s mult_left_mono [of s 1 p] by (simp add: q_def)
  have neg: "p \<le> q \<and> q \<le> 0" if "\<not> 0 \<le> p"
    using that s mult_left_mono_neg [of s 1 p] by (simp add: q_def mult_le_0_iff)
  have "0 \<le> h + q \<and> h + q \<le> 1"
  proof (cases "0 \<le> p")
    case True
    from pos [OF True] have "0 \<le> q" "q \<le> p" by simp_all
    with h0 k c1 show ?thesis by argo
  next
    case False
    from neg [OF False] have "p \<le> q" "q \<le> 0" by simp_all
    with h1 k c2 show ?thesis by argo
  qed
  then show "0 \<le> h + cos x * cos y * s" and "h + cos x * cos y * s \<le> 1"
    by (simp_all only: q_def p_def)
qed

lemma exact_fields:
  "fadd exact = (+)" "fsub exact = (-)" "fmul exact = (*)" "fdiv exact = (/)"
  "fpow2 exact = (\<lambda>x. x\<^sup>2)" "m_radians exact = (\<lambda>x. x * (pi / 180))"
  "m_sin exact = sin" "m_cos exact = cos" "m_sqrt exact = sqrt" "m_asin exact = arcsin"
  by (simp_all add: exact_def)

lemma haversine_a_exact:
  "haversine_a exact lat1 lon1 lat2 lon2 = spec_a lat1 lon1 lat2 lon2"
  by (simp add: haversine_a_def exact_fields spec_a_def Let_def)

lemma spec_a_bounds:
  "0 \<le> spec_a lat1 lon1 lat2 lon2" "spec_a lat1 lon1 lat2 lon2 \<le> 1"
proof -
  let ?x = "lat1 * pi / 180" and ?y = "lat2 * pi / 180"
  let ?s = "(sin (((lon2 - lon1) * pi / 180) / 2))\<^sup>2"
  let ?h = "(sin ((?y - ?x) / 2))\<^sup>2"
  have s0: "0 \<le> ?s" by simp
  have s1: "?s \<le> 1" by (simp add: abs_square_le_1)
  have d: "(lat2 - lat1) * pi / 180 = ?y - ?x" by (simp add: left_diff_distrib diff_divide_distrib)
  have e: "spec_a lat1 lon1 lat2 lon2 = ?h + cos ?x * cos ?y * ?s"
    unfolding spec_a_def d by simp
  show "0 \<le> spec_a lat1 lon1 lat2 lon2"
    unfolding e by (rule haversine_term_bounds(1) [OF s0 s1 refl])
  show "spec_a lat1 lon1 lat2 lon2 \<le> 1"
    unfolding e by (rule haversine_term_bounds(2) [OF s0 s1 refl])
qed

lemma haversine_km_exact:
  "haversine_km exact lat1 lon1 lat2 lon2 = Inr (spec_distance lat1 lon1 lat2 lon2)"
proof -
  let ?a = "spec_a lat1 lon1 lat2 lon2"
  have a0: "0 \<le> ?a" and a1: "?a \<le> 1" by (rule spec_a_bounds)+
  have r0: "0 \<le> sqrt ?a" using a0 by simp
  have r1: "sqrt ?a \<le> 1" using a1 by simp
  have sq: "py_sqrt exact ?a = Inr (sqrt ?a)" using a0 by (simp add: py_sqrt_def exact_fields)
  have "\<not> (sqrt ?a < - 1 \<or> 1 < sqrt ?a)" using r0 r1 by linarith
  then have asn: "py_asin exact (sqrt ?a) = Inr (arcsin (sqrt ?a))"
    by (simp only: py_asin_def if_False exact_fields)
  show ?thesis
    by (simp add: haversine_km_def haversine_a_exact Let_def sq asn exact_fields
        spec_distance_def)
qed

lemma spec_distance_range: "0 \<le> spec_distance la lo a b" "spec_distance la lo a b < 1000000000"
proof -
  let ?a = "spec_a la lo a b"
  let ?t = "arcsin (sqrt ?a)"
  have a0: "0 \<le> ?a" and a1: "?a \<le> 1" by (rule spec_a_bounds)+
  have r0: "0 \<le> sqrt ?a" using a0 by simp
  have r1: "sqrt ?a \<le> 1" using a1 by simp
  have rm: "- 1 \<le> sqrt ?a" using r0 by linarith
  have t0: "0 \<le> ?t" using r0 r1 by (intro arcsin_nonneg) simp
  have t1: "?t \<le> pi / 2" by (rule arcsin_ubound [OF rm r1])
  show "0 \<le> spec_distance la lo a b" using t0 by (simp add: spec_distance_def)
  have "?t < 2" using t1 pi_less_4 by linarith
  then show "spec_distance la lo a b < 1000000000" by (simp add: spec_distance_def)
qed

subsection \<open>Sign symmetry\<close>

lemma sign_symmetric_exact: "sign_symmetric exact"
  by (simp add: sign_symmetric_def exact_fields)

lemma sign_symmetricD:
  assumes "sign_symmetric m"
  shows "fsub m y x = - fsub m x y" and "m_radians m (- x) = - m_radians m x"
    and "fdiv m (- x) 2 = - fdiv m x 2" and "m_sin m (- x) = - m_sin m x"
    and "fpow2 m (- x) = fpow2 m x" and "fmul m x y = fmul m y x"
    and "fpow2 m 0 = 0" and "fmul m x 0 = 0" and "fadd m 0 0 = 0"
    and "m_sqrt m 0 = 0" and "m_asin m 0 = 0"
  using assms unfolding sign_symmetric_def by blast+

lemma haversine_a_swap:
  assumes "sign_symmetric m"
  shows "haversine_a m lat2 lon2 lat1 lon1 = haversine_a m lat1 lon1 lat2 lon2"
proof -
  note d = sign_symmetricD [OF assms]
  have h: "fpow2 m (m_sin m (fdiv m (m_radians m (fsub m x y)) 2))
             = fpow2 m (m_sin m (fdiv m (m_radians m (fsub m y x)) 2))" for x y
    by (simp only: d(1) [of x y] d(2) d(3) d(4) d(5))
  show ?thesis
    unfolding haversine_a_def Let_def
    by (simp only: h [of lat1 lat2] h [of lon1 lon2]
        d(6) [of "m_cos m (m_radians m lat2)" "m_cos m (m_radians m lat1)"])
qed

lemma odd_at_zero:
  fixes f :: "real \<Rightarrow> real"
  assumes "\<And>x. f (- x) = - f x"
  shows "f 0 = 0"
  using assms [of 0] by simp

lemma haversine_a_diag:
  assumes "sign_symmetric m"
  shows "haversine_a m lat lon lat lon = 0"
proof -
  note d = sign_symmetricD [OF assms]
  have "fsub m x x = - fsub m x x" for x by (rule d(1))
  then have z: "fsub m x x = 0" for x by (simp only: eq_neg_iff_add_eq_0) simp
  have r0: "m_radians m 0 = 0" by (rule odd_at_zero) (rule d(2))
  have d0: "fdiv m 0 2 = 0" by (rule odd_at_zero [of "\<lambda>x. fdiv m x 2"]) (rule d(3))
  have s0: "m_sin m 0 = 0" by (rule odd_at_zero) (rule d(4))
  show ?thesis
    unfolding haversine_a_def Let_def
    by (simp only: z r0 d0 s0 d(7) d(8) d(9))
qed

lemma haversine_km_diag:
  assumes "sign_symmetric m"
  shows "haversine_km m lat lon lat lon = Inr 0"
proof -
  note d = sign_symmetricD [OF assms]
  show ?thesis
    unfolding haversine_km_def haversine_a_diag [OF assms] py_sqrt_def py_asin_def Let_def
    by (simp add: d(10) d(11) d(8))
qed

subsection \<open>When the calculator raises\<close>

lemma haversine_km_cases:
  "haversine_km m lat1 lon1 lat2 lon2 =
     (if haversine_a m lat1 lon1 lat2 lon2 < 0 then Inl ValueError
      else if m_sqrt m (haversine_a m lat1 lon1 lat2 lon2) < - 1
              \<or> 1 < m_sqrt m (haversine_a m lat1 lon1 lat2 lon2) then Inl ValueError
      else Inr (fmul m 6371
                  (fmul m 2 (m_asin m (m_sqrt m (haversine_a m lat1 lon1 lat2 lon2))))))"
  by (simp add: haversine_km_def py_sqrt_def py_asin_def Let_def)

lemma haversine_km_error: "haversine_km m lat1 lon1 lat2 lon2 = Inl err \<Longrightarrow> err = ValueError"
  by (auto simp: haversine_km_cases split: if_splits)

lemma probe_values:
  "probe_sub probe_lat (- 64) = 1125899906930585 / 8796093022208"
  "probe_sub 180 0 = 180"
  "probe_radians (1125899906930585 / 8796093022208) = 5030569068502127 / 2251799813685248"
  "probe_radians 180 = 884279719003555 / 281474976710656"
  "probe_radians (- 64) = - (5030569068109113 / 4503599627370496)"
  "probe_radians probe_lat = 5030569068895139 / 4503599627370496"
  "probe_sin (5030569068502127 / 2251799813685248 / 2) = 4047808532168035 / 4503599627370496"
  "probe_sin (884279719003555 / 281474976710656 / 2) = 1"
  "probe_pow2 (4047808532168035 / 4503599627370496) = 1819073104713225 / 2251799813685248"
  "probe_pow2 1 = 1"
  "probe_cos (- (5030569068109113 / 4503599627370496)) = 7896992533317065 / 18014398509481984"
  "probe_cos (5030569068895139 / 4503599627370496) = 7896992530491163 / 18014398509481984"
  "probe_mul (7896992533317065 / 18014398509481984) (7896992530491163 / 18014398509481984)
     = 1730906835888095 / 9007199254740992"
  "probe_mul (1730906835888095 / 9007199254740992) 1 = 1730906835888095 / 9007199254740992"
  "probe_add (1819073104713225 / 2251799813685248) (1730906835888095 / 9007199254740992)
     = 2251799813685249 / 2251799813685248"
  "probe_sqrt (2251799813685249 / 2251799813685248) = 4503599627370497 / 4503599627370496"
  by (simp_all add: probe_sub_def probe_radians_def probe_sin_def probe_pow2_def probe_cos_def
      probe_mul_def probe_add_def probe_sqrt_def probe_lat_def)

lemma probe_fields:
  "fadd binary64_probe = probe_add" "fsub binary64_probe = probe_sub"
  "fmul binary64_probe = probe_mul" "fdiv binary64_probe = (/)"
  "fpow2 binary64_probe = probe_pow2" "m_radians binary64_probe = probe_radians"
  "m_sin binary64_probe = probe_sin" "m_cos binary64_probe = probe_cos"
  "m_sqrt binary64_probe = probe_sqrt" "m_asin binary64_probe = arcsin"
  by (simp_all add: binary64_probe_def)

lemma probe_term:
  "haversine_a binary64_probe (- 64) 0 probe_lat 180 = 2251799813685249 / 2251799813685248"
  unfolding haversine_a_def Let_def probe_fields
  by (simp only: probe_values)

lemma probe_root:
  "m_sqrt binary64_probe (haversine_a binary64_probe (- 64) 0 probe_lat 180)
     = 4503599627370497 / 4503599627370496"
  unfolding probe_term probe_fields by (simp only: probe_values)

section \<open>Proofs: the handlers\<close>

lemma get_event_Some:
  assumes "get_event s eid = Some ev"
  shows "ev \<in> set (events s)" and "ev_id ev = eid"
  using assms by (auto simp: get_event_def find_Some_iff)

lemma get_event_keyed:
  assumes "events_keyed s" "get_event s eid = Some ev" "e \<in> set (events s)" "ev_id e = eid"
  shows "e = ev"
proof -
  have "inj_on ev_id (set (events s))"
    using assms(1) by (simp add: events_keyed_def distinct_map)
  moreover have "ev \<in> set (events s)" "ev_id ev = eid"
    using get_event_Some [OF assms(2)] by simp_all
  ultimately show ?thesis using assms(3,4) by (auto dest: inj_onD)
qed

lemma first_participant_None: "(first_participant s eid u = None) = (memberships s eid u = [])"
  by (auto simp: first_participant_def memberships_def find_None_iff filter_empty_conv)

lemma first_follow_None: "(first_follow s (IntId f) u = None) = (follow_rows s f u = [])"
  by (auto simp: first_follow_def follow_rows_def find_None_iff filter_empty_conv)

lemma join_event_events: "events (snd (join_event s eid data oc)) = events s"
  by (simp add: join_event_def Let_def split: option.splits commit.splits)

lemma join_event_follows: "follows (snd (join_event s eid data oc)) = follows s"
  by (simp add: join_event_def Let_def split: option.splits commit.splits)

lemma join_event_full:
  assumes "get_event s eid = Some ev" "get (player_name_key d) = Some pn" "pn \<noteq> []"
    and "max_players ev \<le> int (count_participants s ev)"
  shows "join_event s eid (Some d) oc = ((Error ''Event is full'', 409), s)"
  using assms by (simp add: join_event_def Let_def)

lemma join_event_member:
  assumes "get_event s eid = Some ev" "get (player_name_key d) = Some pn" "pn \<noteq> []"
    and "\<not> max_players ev \<le> int (count_participants s ev)"
    and "get (user_id_key d) = Some u" "memberships s eid u \<noteq> []"
  shows "join_event s eid (Some d) oc = ((MessageEvent ''Already joined'' (to_dict s ev), 200), s)"
proof -
  obtain p where "first_participant s eid u = Some p"
    using assms(6) first_participant_None [of s eid u] by (cases "first_participant s eid u") auto
  then show ?thesis using assms by (simp add: join_event_def Let_def)
qed

lemma join_event_new:
  assumes "get_event s eid = Some ev" "get (player_name_key d) = Some pn" "pn \<noteq> []"
    and "\<not> max_players ev \<le> int (count_participants s ev)"
    and "get (user_id_key d) = None \<or> (\<exists>u. get (user_id_key d) = Some u \<and> memberships s eid u = [])"
  shows "join_event s eid (Some d) Committed =
    ((MessageEvent ''Successfully joined event''
        (to_dict (s\<lparr>participants := participants s @ [new_row eid d pn]\<rparr>) ev), 200),
     s\<lparr>participants := participants s @ [new_row eid d pn]\<rparr>)"
proof -
  have "(case get (user_id_key d) of None \<Rightarrow> None | Some u \<Rightarrow> first_participant s eid u) = None"
    using assms(5) by (auto simp: first_participant_None)
  then show ?thesis using assms(1-4) by (simp add: join_event_def Let_def new_row_def)
qed

lemma join_event_participants:
  "participants (snd (join_event s eid data oc)) = participants s
   \<or> (\<exists>d pn ev. data = Some d \<and> get (player_name_key d) = Some pn \<and> pn \<noteq> []
        \<and> get_event s eid = Some ev \<and> oc = Committed
        \<and> \<not> max_players ev \<le> int (count_participants s ev)
        \<and> not_yet_member s eid d
        \<and> participants (snd (join_event s eid data oc)) = participants s @ [new_row eid d pn])"
  by (auto simp: join_event_def Let_def new_row_def not_yet_member_def
        first_participant_None [symmetric]
      split: option.splits commit.splits)

lemma leave_event_participants:
  "participants (after s (leave_event s eid data)) = participants s
   \<or> (\<exists>p. participants (after s (leave_event s eid data)) = remove1 p (participants s))"
  by (auto simp: leave_event_def after_def split: option.splits)

lemma leave_event_other:
  "events (after s (leave_event s eid data)) = events s"
  "follows (after s (leave_event s eid data)) = follows s"
  by (simp_all add: leave_event_def after_def split: option.splits)

lemma follow_user_other:
  "events (after s (follow_user s uid data)) = events s"
  "participants (after s (follow_user s uid data)) = participants s"
  by (simp_all add: follow_user_def after_def split: option.splits sum.splits)

lemma unfollow_user_other:
  "events (after s (unfollow_user s uid f)) = events s"
  "participants (after s (unfollow_user s uid f)) = participants s"
  by (simp_all add: unfollow_user_def after_def split: option.splits)

lemma handle_events: "events (handle s r) = events s"
  by (cases r) (simp_all add: join_event_events leave_event_other follow_user_other
      unfollow_user_other)

lemma serve_invariant:
  assumes step: "\<And>s r. I s \<Longrightarrow> P r \<Longrightarrow> I (handle s r)"
    and init: "I s" and reqs: "list_all P rs"
  shows "I (serve s rs)"
  using init reqs by (induction rs arbitrary: s) (simp_all add: step)

section \<open>Proofs: the capacity invariant\<close>

lemma capacity_ok_iff:
  "capacity_ok s = (\<forall>e \<in> set (events s). int (count_participants s e) \<le> max_players e)"
  by (simp add: capacity_ok_def list_all_iff)

lemma capacity_ok_same:
  assumes "events s' = events s" "participants s' = participants s"
  shows "capacity_ok s' = capacity_ok s"
  using assms by (simp add: capacity_ok_iff count_participants_def)

lemma capacity_ok_fewer:
  assumes "events s' = events s" "participants s' = remove1 p (participants s)" "capacity_ok s"
  shows "capacity_ok s'"
proof -
  have "length (filter P (remove1 p xs)) \<le> length (filter P xs)" for P and xs :: "event_participant list"
    by (induction xs) auto
  then have "count_participants s' e \<le> count_participants s e" for e
    using assms(2) by (simp add: count_participants_def)
  then have "int (count_participants s' e) \<le> int (count_participants s e)" for e
    by simp
  have le: "int (count_participants s' e) \<le> int (count_participants s e)" for e
    by fact
  show ?thesis unfolding capacity_ok_iff
  proof
    fix e assume "e \<in> set (events s')"
    then have "int (count_participants s e) \<le> max_players e"
      using assms(1,3) by (simp add: capacity_ok_iff)
    with le [of e] show "int (count_participants s' e) \<le> max_players e" by linarith
  qed
qed

lemma count_participants_append:
  "count_participants (s\<lparr>participants := participants s @ [row]\<rparr>) e
     = count_participants s e + (if event_id row = ev_id e then 1 else 0)"
  by (simp add: count_participants_def)

lemma capacity_join:
  assumes "events_keyed s" "capacity_ok s"
  shows "capacity_ok (snd (join_event s eid data oc))"
proof -
  let ?s' = "snd (join_event s eid data oc)"
  have ev: "events ?s' = events s" by (rule join_event_events)
  from join_event_participants [of s eid data oc] show ?thesis
  proof (elim disjE exE conjE)
    assume "participants ?s' = participants s"
    then show ?thesis using assms(2) capacity_ok_same [OF ev] by simp
  next
    fix d pn e0
    assume g: "get_event s eid = Some e0"
      and room: "\<not> max_players e0 \<le> int (count_participants s e0)"
      and app: "participants ?s' = participants s @ [new_row eid d pn]"
    have "int (count_participants ?s' e) \<le> max_players e" if e: "e \<in> set (events s)" for e
    proof -
      have c: "count_participants ?s' e
                 = count_participants s e + (if eid = ev_id e then 1 else 0)"
        using app by (simp add: count_participants_def new_row_def)
      have old: "int (count_participants s e) \<le> max_players e"
        using assms(2) e by (simp add: capacity_ok_iff)
      show ?thesis
      proof (cases "ev_id e = eid")
        case True
        then have "e = e0" using get_event_keyed [OF assms(1) g e] by simp
        then show ?thesis using room c True by simp
      next
        case False
        then show ?thesis using c old by auto
      qed
    qed
    then show ?thesis by (simp add: capacity_ok_iff ev)
  qed
qed

lemma capacity_handle:
  assumes "events_keyed s \<and> capacity_ok s"
  shows "events_keyed (handle s r) \<and> capacity_ok (handle s r)"
proof
  show "events_keyed (handle s r)"
    using assms by (simp add: events_keyed_def handle_events)
  show "capacity_ok (handle s r)"
  proof (cases r)
    case (Join eid data oc)
    then show ?thesis using assms capacity_join by simp
  next
    case (Leave eid data)
    have ev: "events (after s (leave_event s eid data)) = events s"
      by (rule leave_event_other)
    from leave_event_participants [of s eid data]
    have "capacity_ok (after s (leave_event s eid data))"
    proof (elim disjE exE)
      assume "participants (after s (leave_event s eid data)) = participants s"
      then show ?thesis using assms capacity_ok_same [OF ev] by simp
    next
      fix p
      assume "participants (after s (leave_event s eid data)) = remove1 p (participants s)"
      then show ?thesis using assms capacity_ok_fewer [OF ev] by simp
    qed
    then show ?thesis using Leave by simp
  next
    case (Follow uid data)
    then show ?thesis
      using assms capacity_ok_same [OF follow_user_other, of s uid data] by simp
  next
    case (Unfollow uid f)
    then show ?thesis
      using assms capacity_ok_same [OF unfollow_user_other, of s uid f] by simp
  qed
qed

section \<open>Proofs: unique membership\<close>

lemma distinct_map_remove1:
  "distinct (map f xs) \<Longrightarrow> distinct (map f (remove1 x xs))"
proof (induction xs)
  case Nil
  then show ?case by simp
next
  case (Cons y ys)
  have "set (remove1 x ys) \<subseteq> set ys" by (rule set_remove1_subset)
  then show ?case using Cons by auto
qed

lemma membership_unique_fewer:
  assumes "membership_unique s" "participants s' = remove1 p (participants s)"
  shows "membership_unique s'"
proof -
  let ?P = "\<lambda>p. user_id p \<noteq> None"
  have "filter ?P (remove1 p (participants s)) = remove1 p (filter ?P (participants s))"
    by (rule filter_remove1)
  then show ?thesis
    using assms by (simp add: membership_unique_def distinct_map_remove1)
qed

lemma memberships_key:
  "((eid, Some u) \<in> set (map membership_key (filter (\<lambda>p. user_id p \<noteq> None) (participants s))))
     = (memberships s eid u \<noteq> [])"
  by (auto simp: memberships_def membership_key_def filter_empty_conv image_iff)

lemma membership_unique_more:
  assumes "membership_unique s" "not_yet_member s eid d"
    and "participants s' = participants s @ [new_row eid d pn]"
  shows "membership_unique s'"
proof (cases "get (user_id_key d)")
  case None
  then show ?thesis using assms(1,3) by (simp add: membership_unique_def new_row_def)
next
  case (Some u)
  then have "memberships s eid u = []" using assms(2) by (simp add: not_yet_member_def)
  then have "(eid, Some u) \<notin> set (map membership_key
      (filter (\<lambda>p. user_id p \<noteq> None) (participants s)))"
    using memberships_key [of eid u s] by simp
  then show ?thesis
    using assms(1,3) Some by (simp add: membership_unique_def new_row_def membership_key_def)
qed

lemma membership_join:
  assumes "membership_unique s"
  shows "membership_unique (snd (join_event s eid data oc))"
proof -
  from join_event_participants [of s eid data oc] show ?thesis
  proof (elim disjE exE conjE)
    assume "participants (snd (join_event s eid data oc)) = participants s"
    then show ?thesis using assms by (simp add: membership_unique_def)
  next
    fix d pn
    assume "not_yet_member s eid d"
      and "participants (snd (join_event s eid data oc)) = participants s @ [new_row eid d pn]"
    then show ?thesis using assms membership_unique_more by blast
  qed
qed

lemma membership_leave:
  assumes "membership_unique s"
  shows "membership_unique (after s (leave_event s eid data))"
proof -
  from leave_event_participants [of s eid data] show ?thesis
  proof (elim disjE exE)
    assume "participants (after s (leave_event s eid data)) = participants s"
    then show ?thesis using assms by (simp add: membership_unique_def)
  next
    fix p
    assume "participants (after s (leave_event s eid data)) = remove1 p (participants s)"
    then show ?thesis using assms membership_unique_fewer by blast
  qed
qed

lemma membership_handle:
  assumes "membership_unique s"
  shows "membership_unique (handle s r)"
proof (cases r)
  case (Join eid data oc)
  then show ?thesis using assms membership_join by simp
next
  case (Leave eid data)
  then show ?thesis using assms membership_leave by simp
next
  case (Follow uid data)
  then show ?thesis using assms by (simp add: membership_unique_def follow_user_other)
next
  case (Unfollow uid f)
  then show ?thesis using assms by (simp add: membership_unique_def unfollow_user_other)
qed

lemma distinct_map_filter_le_one:
  assumes "distinct (map f xs)"
  shows "length (filter (\<lambda>x. f x = k) xs) \<le> 1"
  using assms
proof (induction xs)
  case Nil
  then show ?case by simp
next
  case (Cons y ys)
  show ?case
  proof (cases "f y = k")
    case True
    then have "k \<notin> f ` set ys" using Cons.prems by auto
    then have "filter (\<lambda>x. f x = k) ys = []" by (auto simp: filter_empty_conv)
    then show ?thesis using True by simp
  next
    case False
    then show ?thesis using Cons by simp
  qed
qed

lemma membership_unique_le_one:
  assumes "membership_unique s"
  shows "length (memberships s eid u) \<le> 1"
proof -
  let ?xs = "filter (\<lambda>p. user_id p \<noteq> None) (participants s)"
  have "memberships s eid u = filter (\<lambda>p. membership_key p = (eid, Some u)) ?xs"
    by (auto simp: memberships_def membership_key_def intro: filter_cong)
  then show ?thesis
    using distinct_map_filter_le_one [of membership_key ?xs "(eid, Some u)"] assms
    by (simp add: membership_unique_def)
qed

section \<open>Proofs: the follow invariant\<close>

lemma follows_ok_iff:
  "follows_ok s = ((\<forall>r \<in> set (follows s). follower_id r \<noteq> IntId (followee_id r))
                   \<and> distinct (follows s))"
  by (simp add: follows_ok_def list_all_iff)

lemma follow_user_follows:
  assumes "integer_ids (Follow uid data)"
  shows "follows (after s (follow_user s uid data)) = follows s
   \<or> (\<exists>fid. fid \<noteq> uid \<and> follow_rows s fid uid = []
        \<and> follows (after s (follow_user s uid data))
            = follows s @ [\<lparr>follower_id = IntId fid, followee_id = uid\<rparr>])"
proof (cases "case data of None \<Rightarrow> None | Some d \<Rightarrow> get (follower_id_key d)")
  case None
  then show ?thesis by (simp add: follow_user_def after_def)
next
  case (Some v)
  then obtain fid where v: "v = IntId fid"
    using assms by (cases v) (auto split: option.splits)
  show ?thesis
  proof (cases "fid \<noteq> uid \<and> in_store_range fid \<and> in_store_range uid
                 \<and> first_follow s (IntId fid) uid = None")
    case True
    then have "follow_rows s fid uid = []" by (simp add: first_follow_None)
    then show ?thesis
      using True Some v by (auto simp: follow_user_def after_def bind_id_def)
  next
    case False
    then have "follows (after s (follow_user s uid data)) = follows s"
      using Some v by (auto simp: follow_user_def after_def bind_id_def split: option.splits)
    then show ?thesis by simp
  qed
qed

lemma unfollow_user_follows:
  "follows (after s (unfollow_user s uid f)) = follows s
   \<or> (\<exists>r. follows (after s (unfollow_user s uid f)) = remove1 r (follows s))"
  by (auto simp: unfollow_user_def after_def split: option.splits)

lemma follow_row_eq:
  "(r = \<lparr>follower_id = fid, followee_id = uid\<rparr>) = (follower_id r = fid \<and> followee_id r = uid)"
  by (cases r) auto

lemma follow_rows_filter:
  "follow_rows s fid uid
     = filter (\<lambda>r. r = \<lparr>follower_id = IntId fid, followee_id = uid\<rparr>) (follows s)"
  by (simp add: follow_rows_def follow_row_eq)

lemma follow_rows_member:
  "(\<lparr>follower_id = IntId fid, followee_id = uid\<rparr> \<in> set (follows s))
     = (follow_rows s fid uid \<noteq> [])"
  by (auto simp: follow_rows_filter filter_empty_conv)

lemma follows_ok_follow:
  assumes "follows_ok s" and "integer_ids (Follow uid data)"
  shows "follows_ok (after s (follow_user s uid data))"
proof -
  from follow_user_follows [OF assms(2), of s] show ?thesis
  proof (elim disjE exE conjE)
    assume "follows (after s (follow_user s uid data)) = follows s"
    then show ?thesis using assms(1) by (simp add: follows_ok_def)
  next
    fix fid
    assume "fid \<noteq> uid" "follow_rows s fid uid = []"
      and "follows (after s (follow_user s uid data))
            = follows s @ [\<lparr>follower_id = IntId fid, followee_id = uid\<rparr>]"
    then show ?thesis
      using assms(1) follow_rows_member [of fid uid s] by (simp add: follows_ok_iff)
  qed
qed

lemma follows_ok_unfollow:
  assumes "follows_ok s"
  shows "follows_ok (after s (unfollow_user s uid f))"
proof -
  from unfollow_user_follows [of s uid f] show ?thesis
  proof (elim disjE exE)
    assume "follows (after s (unfollow_user s uid f)) = follows s"
    then show ?thesis using assms by (simp add: follows_ok_def)
  next
    fix r assume e: "follows (after s (unfollow_user s uid f)) = remove1 r (follows s)"
    have "set (remove1 r (follows s)) \<subseteq> set (follows s)" by (rule set_remove1_subset)
    then show ?thesis using assms e by (auto simp: follows_ok_iff)
  qed
qed

lemma follows_ok_handle:
  assumes "follows_ok s" and "integer_ids r"
  shows "follows_ok (handle s r)"
proof (cases r)
  case (Join eid data oc)
  then show ?thesis using assms(1) by (simp add: follows_ok_def join_event_follows)
next
  case (Leave eid data)
  then show ?thesis using assms(1) by (simp add: follows_ok_def leave_event_other)
next
  case (Follow uid data)
  then show ?thesis using assms follows_ok_follow by simp
next
  case (Unfollow uid f)
  then show ?thesis using assms(1) follows_ok_unfollow by simp
qed

lemma follows_ok_le_one:
  assumes "follows_ok s"
  shows "length (follow_rows s fid uid) \<le> 1"
proof -
  have d: "distinct (map id (follows s))" using assms by (simp add: follows_ok_def)
  have "follow_rows s fid uid
          = filter (\<lambda>r. id r = \<lparr>follower_id = IntId fid, followee_id = uid\<rparr>) (follows s)"
    by (simp add: follow_rows_filter)
  then show ?thesis
    using distinct_map_filter_le_one
      [OF d, of "\<lparr>follower_id = IntId fid, followee_id = uid\<rparr>"]
    by simp
qed

section \<open>Proofs: the discovery ranker\<close>

lemma event_distance_error: "event_distance m lat lng e = Inl err \<Longrightarrow> err = ValueError"
  by (auto simp: event_distance_def dest: haversine_km_error split: option.splits sum.splits)

lemma nearby_loop_raises:
  assumes "e \<in> set es" and "event_distance m lat lng e = Inl err"
  shows "nearby_loop m s lat lng es out = Inl ValueError"
  using assms(1)
proof (induction es arbitrary: out)
  case Nil
  then show ?case by simp
next
  case (Cons x xs)
  show ?case
  proof (cases "event_distance m lat lng x")
    case (Inl err')
    then have "err' = ValueError" by (rule event_distance_error)
    then show ?thesis using Inl by simp
  next
    case (Inr d)
    then have "x \<noteq> e" using assms(2) by auto
    then have "e \<in> set xs" using Cons.prems by simp
    then show ?thesis using Inr Cons.IH by simp
  qed
qed

lemma nearby_loop_items:
  "nearby_loop m s lat lng es out = Inr r \<Longrightarrow> map item r = map item out @ map (to_dict s) es"
proof (induction es arbitrary: out)
  case Nil
  then show ?case by simp
next
  case (Cons x xs)
  then show ?case by (cases "event_distance m lat lng x") auto
qed

lemma nearby_events_returns:
  assumes "nearby_events m s lat lng = Inr (out, st)"
  shows "st = 200" and "sorted (map sort_key_of out)"
    and "mset (map item out) = mset (map (to_dict s) (events s))"
proof -
  obtain r where r: "nearby_loop m s lat lng (events s) [] = Inr r"
    and o: "out = sort_key sort_key_of r" and st: "st = 200"
    using assms by (auto simp: nearby_events_def split: sum.splits)
  show "st = 200" by (rule st)
  show "sorted (map sort_key_of out)" unfolding o by (rule sorted_sort_key)
  have "mset (map item out) = mset (map item r)" unfolding o by simp
  then show "mset (map item out) = mset (map (to_dict s) (events s))"
    using nearby_loop_items [OF r] by simp
qed

subsection \<open>Without rounding the ranker is total and puts the events without distance last\<close>

lemma event_distance_spec:
  "event_distance exact (Some la) (Some lo) e = Inr (distance_km (spec_item s la lo e))"
  by (simp add: event_distance_def spec_item_def haversine_km_exact split: option.splits)

lemma nearby_loop_spec:
  "nearby_loop exact s (Some la) (Some lo) es out = Inr (out @ map (spec_item s la lo) es)"
proof (induction es arbitrary: out)
  case Nil
  then show ?case by simp
next
  case (Cons e es)
  have "\<lparr>item = to_dict s e, distance_km = distance_km (spec_item s la lo e)\<rparr> = spec_item s la lo e"
    by (simp add: spec_item_def)
  then show ?case using Cons [of "out @ [spec_item s la lo e]"]
    by (simp add: event_distance_spec [of la lo e s])
qed

lemma nearby_events_spec:
  "nearby_events exact s (Some la) (Some lo)
     = Inr (sort_key sort_key_of (map (spec_item s la lo) (events s)), 200)"
  by (simp add: nearby_events_def nearby_loop_spec)

lemma spec_item_key:
  "sort_key_of (spec_item s la lo e) \<le> 1000000000"
  "(sort_key_of (spec_item s la lo e) = 1000000000) = (distance_km (spec_item s la lo e) = None)"
  using spec_distance_range [of la lo]
  by (auto simp: sort_key_of_def spec_item_def less_le split: option.splits)

lemma sorted_nth_le:
  assumes "sorted (map k xs)" "i < j" "j < length xs"
  shows "k (xs ! i) \<le> k (xs ! j)"
  using sorted_nth_mono [OF assms(1), of i j] assms(2,3) by simp

lemma ranked_order:
  fixes out :: "nearby_item list"
  assumes srt: "sorted (map sort_key_of out)"
    and mem: "set out \<subseteq> spec_item s la lo ` E"
    and ij: "i < j" "j < length out"
  shows "case distance_km (out ! i) of
           None \<Rightarrow> distance_km (out ! j) = None
         | Some a \<Rightarrow> (case distance_km (out ! j) of None \<Rightarrow> True | Some b \<Rightarrow> a \<le> b)"
proof -
  have le: "sort_key_of (out ! i) \<le> sort_key_of (out ! j)"
    by (rule sorted_nth_le [OF srt ij])
  have "out ! j \<in> set out" using ij by simp
  then obtain e where j: "out ! j = spec_item s la lo e" using mem by auto
  have kj: "sort_key_of (out ! j) \<le> 1000000000"
    and nj: "(sort_key_of (out ! j) = 1000000000) = (distance_km (out ! j) = None)"
    unfolding j by (rule spec_item_key)+
  show ?thesis
  proof (cases "distance_km (out ! i)")
    case None
    then have "sort_key_of (out ! i) = 1000000000" by (simp add: sort_key_of_def)
    then have "sort_key_of (out ! j) = 1000000000" using le kj by linarith
    then show ?thesis using None nj by simp
  next
    case (Some a)
    then show ?thesis using le by (auto simp: sort_key_of_def split: option.splits)
  qed
qed

lemma nearby_events_exact_ranked:
  "case nearby_events exact s (Some la) (Some lo) of
     Inl err \<Rightarrow> False
   | Inr (out, status) \<Rightarrow>
       status = 200
       \<and> mset out = mset (map (spec_item s la lo) (events s))
       \<and> sorted (map sort_key_of out)
       \<and> (\<forall>i j. i < j \<and> j < length out \<longrightarrow>
            (case distance_km (out ! i) of
               None \<Rightarrow> distance_km (out ! j) = None
             | Some a \<Rightarrow> (case distance_km (out ! j) of None \<Rightarrow> True | Some b \<Rightarrow> a \<le> b)))
       \<and> (\<forall>k. filter (\<lambda>x. sort_key_of x = k) out
                 = filter (\<lambda>x. sort_key_of x = k) (map (spec_item s la lo) (events s)))"
proof -
  let ?xs = "map (spec_item s la lo) (events s)"
  let ?out = "sort_key sort_key_of ?xs"
  have srt: "sorted (map sort_key_of ?out)" by (rule sorted_sort_key)
  have mem: "set ?out \<subseteq> spec_item s la lo ` set (events s)" by simp
  have ord: "\<forall>i j. i < j \<and> j < length ?out \<longrightarrow>
            (case distance_km (?out ! i) of
               None \<Rightarrow> distance_km (?out ! j) = None
             | Some a \<Rightarrow> (case distance_km (?out ! j) of None \<Rightarrow> True | Some b \<Rightarrow> a \<le> b))"
    using ranked_order [OF srt mem] by blast
  have stab: "\<forall>k. filter (\<lambda>x. sort_key_of x = k) ?out = filter (\<lambda>x. sort_key_of x = k) ?xs"
    by (simp add: sort_key_stable)
  have ms: "mset ?out = mset ?xs" by simp
  show ?thesis
    unfolding nearby_events_spec using srt ord stab ms by simp
qed

subsection \<open>The binary64 results at the probe\<close>

lemma probe_raises: "haversine_km binary64_probe (- 64) 0 probe_lat 180 = Inl ValueError"
proof -
  have "(1::real) < 4503599627370497 / 4503599627370496" by simp
  then show ?thesis
    unfolding haversine_km_cases probe_root unfolding probe_term by simp
qed

lemma polar_store_event:
  "events polar_store = [court\<lparr>latitude := Some probe_lat, longitude := Some 180\<rparr>]"
  by (simp add: polar_store_def)

section \<open>Proofs: the example data and single requests\<close>

lemma club_events:
  "get_event (club\<lparr>participants := ps\<rparr>) 7 = Some pickup"
  "get_event (club\<lparr>participants := ps\<rparr>) 8 = Some league"
  by (simp_all add: get_event_def club_def pickup_def league_def court_def)

lemma club_fields:
  "max_players pickup = 1" "max_players league = 2" "ev_id pickup = 7" "ev_id league = 8"
  by (simp_all add: pickup_def league_def)

lemma data_fields:
  "get (player_name_key ann) = Some ''Ann''" "get (user_id_key ann) = Some 5"
  "get (player_name_key bob) = Some ''Bob''" "get (user_id_key bob) = Some 6"
  "get (player_name_key guest) = Some ''Guest''" "get (user_id_key guest) = None"
  "get_default (team_key ann) ''team_a'' = Some ''team_a''"
  "get_default (team_key guest) ''team_a'' = Some ''team_a''"
  by (simp_all add: ann_def bob_def guest_def)

lemma club_join_ann_7:
  "join_event club 7 (Some ann) Committed
     = ((MessageEvent ''Successfully joined event''
           (to_dict (club\<lparr>participants := [ann_row 7]\<rparr>) pickup), 200),
        club\<lparr>participants := [ann_row 7]\<rparr>)"
  using club_events(1) [of "[]"]
  by (simp add: join_event_def Let_def data_fields club_fields count_participants_def
      first_participant_def ann_row_def club_def)

lemma join_event_full_iff:
  assumes "get_event s eid = Some ev" "get (player_name_key d) = Some pn" "pn \<noteq> []"
  shows "(fst (join_event s eid (Some d) oc) = (Error ''Event is full'', 409))
           = (\<not> int (count_participants s ev) < max_players ev)"
  using assms
  by (simp add: join_event_def Let_def split: option.splits commit.splits)

lemma club_full_ok:
  "events_keyed (club\<lparr>participants := [ann_row 7]\<rparr>)"
  "capacity_ok (club\<lparr>participants := [ann_row 7]\<rparr>)"
  by (simp_all add: events_keyed_def capacity_ok_def club_def pickup_def league_def
      count_participants_def ann_row_def)

lemma join_event_200:
  assumes "snd (fst (join_event s eid (Some d) oc)) = 200" and "get (user_id_key d) = Some u"
  shows "\<exists>ev pn. get_event s eid = Some ev \<and> get (player_name_key d) = Some pn \<and> pn \<noteq> []
           \<and> \<not> max_players ev \<le> int (count_participants s ev)
           \<and> ((memberships s eid u \<noteq> [] \<and> snd (join_event s eid (Some d) oc) = s)
                \<or> (memberships s eid u = []
                    \<and> snd (join_event s eid (Some d) oc)
                        = s\<lparr>participants := participants s @ [new_row eid d pn]\<rparr>))"
  using assms
  by (auto simp: join_event_def Let_def new_row_def first_participant_None [symmetric]
      split: option.splits commit.splits if_splits)

lemma get_event_participants_update [simp]:
  "get_event (s\<lparr>participants := ps\<rparr>) eid = get_event s eid"
  by (simp add: get_event_def)

lemma memberships_append:
  "memberships (s\<lparr>participants := participants s @ [new_row eid d pn]\<rparr>) eid' u
     = memberships s eid' u
        @ (if eid = eid' \<and> get (user_id_key d) = Some u then [new_row eid d pn] else [])"
  by (simp add: memberships_def new_row_def)

lemma join_event_again:
  assumes "get_event s eid = Some ev" "get (player_name_key d) = Some pn" "pn \<noteq> []"
    and "get (user_id_key d) = Some u" "memberships s eid u \<noteq> []"
  shows "join_event s eid (Some d) oc =
           (if max_players ev \<le> int (count_participants s ev)
            then ((Error ''Event is full'', 409), s)
            else ((MessageEvent ''Already joined'' (to_dict s ev), 200), s))"
  using assms join_event_full [of s eid ev d pn oc] join_event_member [of s eid ev d pn u oc]
  by simp

lemma club_unique: "membership_unique club"
  by (simp add: membership_unique_def club_def)

lemma club_join_ann_8:
  "join_event club 8 (Some ann) Committed
     = ((MessageEvent ''Successfully joined event''
           (to_dict (club\<lparr>participants := [ann_row 8]\<rparr>) league), 200),
        club\<lparr>participants := [ann_row 8]\<rparr>)"
  using club_events(2) [of "[]"]
  by (simp add: join_event_def Let_def data_fields club_fields count_participants_def
      first_participant_def ann_row_def club_def)

lemma follow_user_self:
  "follow_user s uid (Some \<lparr>follower_id_key = Val (IntId uid)\<rparr>)
     = Inr ((Error ''cannot follow self'', 400), s)"
  by (simp add: follow_user_def)

lemma follow_user_existing:
  assumes "fid \<noteq> uid" "in_store_range fid" "in_store_range uid" "follow_rows s fid uid \<noteq> []"
  shows "follow_user s uid (Some \<lparr>follower_id_key = Val (IntId fid)\<rparr>)
           = Inr ((Message ''Already following'', 200), s)"
proof -
  obtain r where "first_follow s (IntId fid) uid = Some r"
    using assms(4) first_follow_None [of s fid uid]
    by (cases "first_follow s (IntId fid) uid") auto
  then show ?thesis using assms(1-3) by (simp add: follow_user_def bind_id_def)
qed

lemma follow_user_fresh:
  assumes "fid \<noteq> uid" "in_store_range fid" "in_store_range uid" "follow_rows s fid uid = []"
  shows "follow_user s uid (Some \<lparr>follower_id_key = Val (IntId fid)\<rparr>)
           = Inr ((Message ''Followed'', 200),
                  s\<lparr>follows := follows s @ [\<lparr>follower_id = IntId fid, followee_id = uid\<rparr>]\<rparr>)"
proof -
  have "first_follow s (IntId fid) uid = None" using assms(4) by (simp add: first_follow_None)
  then show ?thesis using assms(1-3) by (simp add: follow_user_def bind_id_def)
qed

lemma follow_user_overflow:
  assumes "fid \<noteq> uid" "\<not> (in_store_range fid \<and> in_store_range uid)"
  shows "follow_user s uid (Some \<lparr>follower_id_key = Val (IntId fid)\<rparr>) = Inl OverflowError"
  using assms by (auto simp: follow_user_def bind_id_def)

lemma follow_user_text:
  assumes "text_affinity s t = Some uid" "in_store_range uid" "follow_rows s uid uid = []"
  shows "follow_user s uid (Some \<lparr>follower_id_key = Val (TextId t)\<rparr>)
           = Inr ((Message ''Followed'', 200),
                  s\<lparr>follows := follows s @ [\<lparr>follower_id = IntId uid, followee_id = uid\<rparr>]\<rparr>)"
proof -
  have "first_follow s (IntId uid) uid = None" using assms(3) by (simp add: first_follow_None)
  then show ?thesis using assms(1,2) by (simp add: follow_user_def bind_id_def)
qed

lemma unfollow_user_absent:
  assumes "in_store_range fid" "in_store_range uid" "follow_rows s fid uid = []"
  shows "unfollow_user s uid (Some fid) = Inr ((Message ''Not following'', 200), s)"
proof -
  have "first_follow s (IntId fid) uid = None" using assms(3) by (simp add: first_follow_None)
  then show ?thesis using assms(1,2) by (simp add: unfollow_user_def)
qed

lemma unfollow_user_overflow:
  assumes "\<not> (in_store_range fid \<and> in_store_range uid)"
  shows "unfollow_user s uid (Some fid) = Inl OverflowError"
  using assms by (auto simp: unfollow_user_def)

lemma leave_event_overflow:
  assumes "get (leave_user_id_key d) = Some u" "\<not> (in_store_range eid \<and> in_store_range u)"
  shows "leave_event s eid (Some d) = Inl OverflowError"
  using assms by (auto simp: leave_event_def)

lemma store_range_examples:
  "in_store_range 1" "in_store_range 2" "in_store_range 5" "in_store_range 6"
  "in_store_range 7" "in_store_range 8" "\<not> in_store_range (2 ^ 63)"
  by (simp_all add: in_store_range_def)

section \<open>The claims\<close>

text \<open>
  Claim C1, as the code has it. \<open>join_event\<close> evaluates the capacity check before it
  looks for an existing membership. For a request with a player name and a user id that
  already has a row for the event, the join answers 409 \<open>Event is full\<close> when the event
  is full, and otherwise succeeds as a no-op with 200 \<open>Already joined\<close> and the current
  event; in both cases the store is unchanged.
\<close>

theorem rejoin_is_checked_for_capacity_first:
  assumes "get_event s eid = Some ev"
    and "get (player_name_key d) = Some pn" and "pn \<noteq> []"
    and "get (user_id_key d) = Some u" and "memberships s eid u \<noteq> []"
  shows "join_event s eid (Some d) oc =
           (if max_players ev \<le> int (count_participants s ev)
            then ((Error ''Event is full'', 409), s)
            else ((MessageEvent ''Already joined'' (to_dict s ev), 200), s))"
  using assms join_event_full [of s eid ev d pn oc] join_event_member [of s eid ev d pn u oc]
  by simp

text \<open>
  The claim as the specification states it fails: user 5 is the one participant of an
  event with \<open>max_players = 1\<close>, and joining again is answered 409, not 200.
\<close>

theorem rejoin_full_event_counterexample:
  "memberships (club\<lparr>participants := [ann_row 7]\<rparr>) 7 5 = [ann_row 7]
   \<and> join_event (club\<lparr>participants := [ann_row 7]\<rparr>) 7 (Some ann) Committed
       = ((Error ''Event is full'', 409), club\<lparr>participants := [ann_row 7]\<rparr>)"
proof -
  let ?s = "club\<lparr>participants := [ann_row 7]\<rparr>"
  have m: "memberships ?s 7 5 = [ann_row 7]"
    by (simp add: memberships_def ann_row_def)
  have c: "count_participants ?s pickup = 1"
    by (simp add: count_participants_def ann_row_def club_fields)
  show ?thesis
    using m join_event_full [of ?s 7 pickup ann "''Ann''" Committed] club_events(1) c
    by (simp add: data_fields club_fields)
qed

text \<open>
  With room left (one participant, \<open>max_players = 2\<close>), the same request is the
  idempotent success.
\<close>

theorem rejoin_is_checked_for_capacity_first_witness:
  "memberships (club\<lparr>participants := [ann_row 8]\<rparr>) 8 5 = [ann_row 8]
   \<and> join_event (club\<lparr>participants := [ann_row 8]\<rparr>) 8 (Some ann) Committed
       = ((MessageEvent ''Already joined'' (to_dict (club\<lparr>participants := [ann_row 8]\<rparr>) league),
           200), club\<lparr>participants := [ann_row 8]\<rparr>)"
proof -
  let ?s = "club\<lparr>participants := [ann_row 8]\<rparr>"
  have m: "memberships ?s 8 5 = [ann_row 8]"
    by (simp add: memberships_def ann_row_def)
  have c: "count_participants ?s league = 1"
    by (simp add: count_participants_def ann_row_def club_fields)
  show ?thesis
    using m rejoin_is_checked_for_capacity_first [of ?s 8 league ann "''Ann''" 5 Committed]
      club_events(2) c
    by (simp add: data_fields club_fields)
qed

text \<open>
  Claim C2. In a store whose events have distinct ids, \<open>count_participants e \<le>
  max_players e\<close> for every event is preserved by every sequence of requests (joins, and
  leaves and follows as well). A join with a player name to an existing event is answered
  409 \<open>Event is full\<close> exactly when the count is not below \<open>max_players\<close>, and then, in
  particular when the count equals \<open>max_players\<close>, the store is unchanged.
\<close>

theorem capacity_invariant:
  assumes "events_keyed s" and "capacity_ok s"
  shows "capacity_ok (serve s rs)
    \<and> (get_event s eid = Some ev \<and> get (player_name_key d) = Some pn \<and> pn \<noteq> [] \<longrightarrow>
         ((fst (join_event s eid (Some d) oc) = (Error ''Event is full'', 409))
            = (\<not> int (count_participants s ev) < max_players ev))
         \<and> (int (count_participants s ev) = max_players ev \<longrightarrow>
              join_event s eid (Some d) oc = ((Error ''Event is full'', 409), s)))"
proof -
  have "events_keyed (serve s rs) \<and> capacity_ok (serve s rs)"
    using assms
    by (intro serve_invariant [where I = "\<lambda>s. events_keyed s \<and> capacity_ok s"
          and P = "\<lambda>r. True"] capacity_handle)
      (simp_all add: list_all_iff)
  then show ?thesis
    using join_event_full_iff [of s eid ev d pn oc] join_event_full [of s eid ev d pn oc]
    by auto
qed

theorem capacity_invariant_witness:
  "capacity_ok (serve (club\<lparr>participants := [ann_row 7]\<rparr>) [Join 7 (Some bob) Committed])
   \<and> int (count_participants (club\<lparr>participants := [ann_row 7]\<rparr>) pickup) = max_players pickup
   \<and> join_event (club\<lparr>participants := [ann_row 7]\<rparr>) 7 (Some bob) Committed
       = ((Error ''Event is full'', 409), club\<lparr>participants := [ann_row 7]\<rparr>)"
proof -
  let ?s = "club\<lparr>participants := [ann_row 7]\<rparr>"
  have c: "count_participants ?s pickup = 1"
    by (simp add: count_participants_def ann_row_def club_fields)
  have g: "get_event ?s 7 = Some pickup \<and> get (player_name_key bob) = Some ''Bob'' \<and> ''Bob'' \<noteq> []"
    using club_events(1) [of "[ann_row 7]"] by (simp add: data_fields)
  have e: "int (count_participants ?s pickup) = max_players pickup"
    using c by (simp add: club_fields)
  from capacity_invariant [OF club_full_ok, of "[Join 7 (Some bob) Committed]" 7 pickup bob
        "''Bob''" Committed] g e
  have "capacity_ok (serve ?s [Join 7 (Some bob) Committed])"
    and "join_event ?s 7 (Some bob) Committed = ((Error ''Event is full'', 409), ?s)"
    by blast+
  with e show ?thesis by blast
qed

text \<open>
  Claim C3, as the code has it. If no (event, user id) pair has two rows, then none has
  after any sequence of requests, so every pair has at most one row. When a join with a
  user id has succeeded, exactly one row exists for the pair and a second identical join
  adds none: it answers 200 \<open>Already joined\<close> if the event still has room, and 409
  \<open>Event is full\<close> if the first join filled it.
\<close>

theorem membership_stays_unique:
  assumes "membership_unique s"
  shows "membership_unique (serve s rs)
    \<and> length (memberships (serve s rs) eid u) \<le> 1
    \<and> (get (user_id_key d) = Some u \<and> snd (fst (join_event s eid (Some d) oc)) = 200 \<longrightarrow>
         (\<exists>ev. get_event s eid = Some ev
            \<and> length (memberships (snd (join_event s eid (Some d) oc)) eid u) = 1
            \<and> join_event (snd (join_event s eid (Some d) oc)) eid (Some d) oc' =
                (if max_players ev
                      \<le> int (count_participants (snd (join_event s eid (Some d) oc)) ev)
                 then ((Error ''Event is full'', 409), snd (join_event s eid (Some d) oc))
                 else ((MessageEvent ''Already joined''
                          (to_dict (snd (join_event s eid (Some d) oc)) ev), 200),
                       snd (join_event s eid (Some d) oc)))))"
proof -
  have inv: "membership_unique (serve s rs)"
    using assms
    by (intro serve_invariant [where I = membership_unique and P = "\<lambda>r. True"]
        membership_handle)
      (simp_all add: list_all_iff)
  have one: "length (memberships (serve s rs) eid u) \<le> 1"
    by (rule membership_unique_le_one [OF inv])
  have twice: "\<exists>ev. get_event s eid = Some ev
            \<and> length (memberships (snd (join_event s eid (Some d) oc)) eid u) = 1
            \<and> join_event (snd (join_event s eid (Some d) oc)) eid (Some d) oc' =
                (if max_players ev
                      \<le> int (count_participants (snd (join_event s eid (Some d) oc)) ev)
                 then ((Error ''Event is full'', 409), snd (join_event s eid (Some d) oc))
                 else ((MessageEvent ''Already joined''
                          (to_dict (snd (join_event s eid (Some d) oc)) ev), 200),
                       snd (join_event s eid (Some d) oc)))"
    if u: "get (user_id_key d) = Some u" and ok: "snd (fst (join_event s eid (Some d) oc)) = 200"
  proof -
    let ?s1 = "snd (join_event s eid (Some d) oc)"
    from join_event_200 [OF ok u] obtain ev pn where
      g: "get_event s eid = Some ev" and n: "get (player_name_key d) = Some pn" "pn \<noteq> []"
      and c: "(memberships s eid u \<noteq> [] \<and> ?s1 = s)
                \<or> (memberships s eid u = []
                    \<and> ?s1 = s\<lparr>participants := participants s @ [new_row eid d pn]\<rparr>)"
      by blast
    have le: "length (memberships s eid u) \<le> 1"
      by (rule membership_unique_le_one [OF assms])
    have m1: "length (memberships ?s1 eid u) = 1"
    proof (rule disjE [OF c])
      assume a: "memberships s eid u \<noteq> [] \<and> ?s1 = s"
      then have pos: "0 < length (memberships s eid u)" and same: "?s1 = s" by simp_all
      have "length (memberships s eid u) = 1" using pos le by linarith
      then show ?thesis by (simp only: same)
    next
      assume a: "memberships s eid u = []
                    \<and> ?s1 = s\<lparr>participants := participants s @ [new_row eid d pn]\<rparr>"
      then show ?thesis using u by (simp add: memberships_append)
    qed
    then have ne: "memberships ?s1 eid u \<noteq> []" by auto
    have g1: "get_event ?s1 eid = Some ev"
      using g by (simp add: get_event_def join_event_events)
    show ?thesis using g m1 join_event_again [OF g1 n u ne, of oc'] by blast
  qed
  show ?thesis using inv one twice by blast
qed

text \<open>
  The claim as the specification states it fails where the first join fills the event:
  with \<open>max_players = 1\<close> the second identical join is answered 409, not a success.
\<close>

theorem rejoin_after_filling_counterexample:
  "snd (fst (join_event club 7 (Some ann) Committed)) = 200
   \<and> fst (join_event (snd (join_event club 7 (Some ann) Committed)) 7 (Some ann) Committed)
       = (Error ''Event is full'', 409)"
proof -
  let ?s = "club\<lparr>participants := [ann_row 7]\<rparr>"
  have c: "max_players pickup \<le> int (count_participants ?s pickup)"
    by (simp add: count_participants_def ann_row_def club_fields)
  have n: "''Ann'' \<noteq> []" by simp
  show ?thesis
    using join_event_full [OF club_events(1) data_fields(1) n c, of Committed]
    by (simp add: club_join_ann_7)
qed

theorem membership_stays_unique_witness:
  "membership_unique (serve club [Join 8 (Some ann) Committed, Join 8 (Some ann) Committed])
   \<and> snd (fst (join_event club 8 (Some ann) Committed)) = 200
   \<and> length (memberships (club\<lparr>participants := [ann_row 8]\<rparr>) 8 5) = 1
   \<and> join_event (club\<lparr>participants := [ann_row 8]\<rparr>) 8 (Some ann) Committed
       = ((MessageEvent ''Already joined'' (to_dict (club\<lparr>participants := [ann_row 8]\<rparr>) league),
           200), club\<lparr>participants := [ann_row 8]\<rparr>)"
proof -
  let ?s1 = "club\<lparr>participants := [ann_row 8]\<rparr>"
  let ?rs = "[Join 8 (Some ann) Committed, Join 8 (Some ann) Committed]"
  have ok: "snd (fst (join_event club 8 (Some ann) Committed)) = 200"
    by (simp add: club_join_ann_8)
  have s1: "snd (join_event club 8 (Some ann) Committed) = ?s1"
    by (simp add: club_join_ann_8)
  have g: "get_event club 8 = Some league"
    using club_events(2) [of "participants club"] by simp
  have c: "\<not> max_players league \<le> int (count_participants ?s1 league)"
    by (simp add: count_participants_def ann_row_def club_fields)
  note t = membership_stays_unique [OF club_unique, of ?rs 8 5 ann Committed Committed]
  from t have a: "membership_unique (serve club ?rs)" by blast
  from t ok data_fields(2) g c show ?thesis
    unfolding s1 by (simp add: a)
qed

text \<open>
  Claim C4, where the code departs from it. \<open>nearby_events\<close> calls \<open>haversine_km\<close> for
  every event that has both coordinates and has no \<open>try\<close> block: as soon as the
  calculator raises for one event, the handler raises, and the request is answered with
  status 500 in place of the ranked list.
\<close>

theorem nearby_events_raises_with_haversine:
  assumes "e \<in> set (events s)"
    and "latitude e = Some ela" and "longitude e = Some elo"
    and "haversine_km m la lo ela elo = Inl err"
  shows "nearby_events m s (Some la) (Some lo) = Inl ValueError"
proof -
  have "event_distance m (Some la) (Some lo) e = Inl err"
    using assms(2-4) by (simp add: event_distance_def)
  then have "nearby_loop m s (Some la) (Some lo) (events s) [] = Inl ValueError"
    by (rule nearby_loop_raises [OF assms(1)])
  then show ?thesis by (simp add: nearby_events_def)
qed

text \<open>
  The failing input: the reference point \<open>(-64, 0)\<close> and one event at
  \<open>(64.00000001, 180)\<close>, with the binary64 results of the operations.
\<close>

theorem nearby_events_raises_with_haversine_witness:
  "haversine_km binary64_probe (- 64) 0 probe_lat 180 = Inl ValueError
   \<and> nearby_events binary64_probe polar_store (Some (- 64)) (Some 0) = Inl ValueError"
proof -
  let ?e = "court\<lparr>latitude := Some probe_lat, longitude := Some 180\<rparr>"
  have e: "?e \<in> set (events polar_store)" by (simp add: polar_store_event)
  have la: "latitude ?e = Some probe_lat" and lo: "longitude ?e = Some 180" by simp_all
  show ?thesis
    using nearby_events_raises_with_haversine [OF e la lo probe_raises] probe_raises by simp
qed

text \<open>
  Claim C5, as the code has it. \<open>leave_event\<close> with a user id that has no row for the
  event answers 200 \<open>Not a participant\<close> and leaves the store unchanged when the event id
  and the user id are within the signed 64-bit range of the store. When one of them is
  not, the lookup raises \<open>OverflowError\<close>; the handler has no \<open>try\<close> block, so the request
  is answered with status 500, and nothing is written.
\<close>

theorem leave_non_member_is_noop:
  assumes "get (leave_user_id_key d) = Some u" and "memberships s eid u = []"
  shows "leave_event s eid (Some d) =
           (if in_store_range eid \<and> in_store_range u
            then Inr ((Message ''Not a participant'', 200), s)
            else Inl OverflowError)"
proof -
  have "first_participant s eid u = None"
    using assms(2) by (simp add: first_participant_None)
  then show ?thesis using assms(1) by (simp add: leave_event_def)
qed

text \<open>
  The claim as the specification states it fails for the user id \<open>2\<^sup>6\<^sup>3\<close>: no row exists
  for it, and the request is not a success.
\<close>

theorem leave_huge_user_id_counterexample:
  "memberships (club\<lparr>participants := [ann_row 7]\<rparr>) 7 (2 ^ 63) = []
   \<and> leave_event (club\<lparr>participants := [ann_row 7]\<rparr>) 7
        (Some \<lparr>leave_user_id_key = Val (2 ^ 63)\<rparr>) = Inl OverflowError"
proof -
  have m: "memberships (club\<lparr>participants := [ann_row 7]\<rparr>) 7 (2 ^ 63) = []"
    by (simp add: memberships_def ann_row_def)
  have g: "get (leave_user_id_key \<lparr>leave_user_id_key = Val ((2::int) ^ 63)\<rparr>) = Some (2 ^ 63)"
    by simp
  have r: "\<not> (in_store_range 7 \<and> in_store_range (2 ^ 63))"
    using store_range_examples(7) by blast
  show ?thesis using m leave_event_overflow [OF g r] by blast
qed

theorem leave_non_member_is_noop_witness:
  "memberships (club\<lparr>participants := [ann_row 7]\<rparr>) 7 6 = []
   \<and> leave_event (club\<lparr>participants := [ann_row 7]\<rparr>) 7 (Some \<lparr>leave_user_id_key = Val 6\<rparr>)
       = Inr ((Message ''Not a participant'', 200), club\<lparr>participants := [ann_row 7]\<rparr>)"
proof -
  let ?s = "club\<lparr>participants := [ann_row 7]\<rparr>"
  have m: "memberships ?s 7 6 = []" by (simp add: memberships_def ann_row_def)
  show ?thesis
    using m leave_non_member_is_noop [of "\<lparr>leave_user_id_key = Val 6\<rparr>" 6 ?s 7]
    by (simp add: store_range_examples)
qed

text \<open>
  Claim C6. The distance is symmetric in its two coordinates,
  \<open>distance(A, B) = distance(B, A)\<close>, and the distance from a coordinate to itself is
  zero, where \<open>haversine_km\<close> returns a value and raises nothing on the diagonal. This
  holds without rounding, and with every rounding that keeps the signs as binary64
  arithmetic does: off the diagonal the two calls have the same outcome, a distance or
  an exception.
\<close>

theorem haversine_symmetric_and_zero:
  "haversine_km exact lat1 lon1 lat2 lon2 = haversine_km exact lat2 lon2 lat1 lon1
   \<and> haversine_km exact lat1 lon1 lat1 lon1 = Inr 0
   \<and> (sign_symmetric m \<longrightarrow>
        haversine_km m lat1 lon1 lat2 lon2 = haversine_km m lat2 lon2 lat1 lon1
        \<and> haversine_km m lat1 lon1 lat1 lon1 = Inr 0)"
proof -
  have sym: "haversine_km m' lat1 lon1 lat2 lon2 = haversine_km m' lat2 lon2 lat1 lon1"
    if "sign_symmetric m'" for m'
    by (simp add: haversine_km_def haversine_a_swap [OF that, of lat1 lon1 lat2 lon2])
  show ?thesis
    using sym [OF sign_symmetric_exact] haversine_km_diag [OF sign_symmetric_exact]
      sym [of m] haversine_km_diag [of m]
    by blast
qed

theorem haversine_symmetric_and_zero_witness:
  "sign_symmetric exact
   \<and> haversine_km exact 52 13 48 2 = haversine_km exact 48 2 52 13
   \<and> haversine_km exact 52 13 52 13 = Inr 0"
  using haversine_symmetric_and_zero [of 52 13 48 2 exact] sign_symmetric_exact by blast

text \<open>
  Claim C7, where the code departs from it. \<open>haversine_km\<close> takes the root of the rounded
  haversine term and applies \<open>asin\<close> to it without bounding either: it raises
  \<open>ValueError\<close>, and returns no distance, exactly when the rounded term is negative or
  its rounded root lies outside \<open>[-1, 1]\<close>. Without rounding the term stays in \<open>[0, 1]\<close>
  and the result is the formula of the claim (\<open>haversine_km_exact\<close>).
\<close>

theorem haversine_km_raises_iff:
  "(haversine_km m lat1 lon1 lat2 lon2 = Inl ValueError)
     = (haversine_a m lat1 lon1 lat2 lon2 < 0
        \<or> m_sqrt m (haversine_a m lat1 lon1 lat2 lon2) < - 1
        \<or> 1 < m_sqrt m (haversine_a m lat1 lon1 lat2 lon2))"
  by (simp add: haversine_km_cases)

text \<open>
  The failing input: the coordinates \<open>(-64, 0)\<close> and \<open>(64.00000001, 180)\<close>. In binary64
  the haversine term is \<open>1 + 2\<^sup>-\<^sup>5\<^sup>1\<close> and its root \<open>1 + 2\<^sup>-\<^sup>5\<^sup>2\<close>.
\<close>

theorem haversine_km_raises_iff_witness:
  "haversine_a binary64_probe (- 64) 0 probe_lat 180 = 1 + 1 / 2 ^ 51
   \<and> m_sqrt binary64_probe (haversine_a binary64_probe (- 64) 0 probe_lat 180) = 1 + 1 / 2 ^ 52
   \<and> haversine_km binary64_probe (- 64) 0 probe_lat 180 = Inl ValueError"
proof -
  have r: "1 < m_sqrt binary64_probe (haversine_a binary64_probe (- 64) 0 probe_lat 180)"
    unfolding probe_root by simp
  have t: "haversine_a binary64_probe (- 64) 0 probe_lat 180 = 1 + 1 / 2 ^ 51"
    unfolding probe_term by simp
  have q: "m_sqrt binary64_probe (haversine_a binary64_probe (- 64) 0 probe_lat 180)
             = 1 + 1 / 2 ^ 52"
    unfolding probe_root by simp
  show ?thesis
    using haversine_km_raises_iff [of binary64_probe "- 64" 0 probe_lat 180] r t q by blast
qed

text \<open>
  Claim C8, as the code has it. If no follow row has equal follower and followee and no
  pair has two rows, the same holds after any sequence of requests whose follower ids are
  JSON integers. \<open>follow_user\<close> with the follower equal to the followee answers 400 and
  changes nothing. For ids within the signed 64-bit range of the store, following a pair
  twice succeeds both times and leaves exactly one row, the second answer being
  \<open>Already following\<close>, and unfollowing a pair that has no row answers 200
  \<open>Not following\<close> and changes nothing. For an id outside that range the lookup raises
  \<open>OverflowError\<close>; neither handler has a \<open>try\<close> block, so the request is answered with
  status 500, and nothing is written.
\<close>

theorem follow_state_invariants:
  assumes "follows_ok s" and "list_all integer_ids rs"
  shows "follows_ok (serve s rs)
    \<and> (\<forall>r \<in> set (follows (serve s rs)). follower_id r \<noteq> IntId (followee_id r))
    \<and> length (follow_rows (serve s rs) fid uid) \<le> 1
    \<and> follow_user s uid (Some \<lparr>follower_id_key = Val (IntId uid)\<rparr>)
        = Inr ((Error ''cannot follow self'', 400), s)
    \<and> (fid \<noteq> uid \<and> in_store_range fid \<and> in_store_range uid \<longrightarrow>
         (case follow_user s uid (Some \<lparr>follower_id_key = Val (IntId fid)\<rparr>) of
            Inl err \<Rightarrow> False
          | Inr (resp, s1) \<Rightarrow>
              snd resp = 200
              \<and> length (follow_rows s1 fid uid) = 1
              \<and> follow_user s1 uid (Some \<lparr>follower_id_key = Val (IntId fid)\<rparr>)
                  = Inr ((Message ''Already following'', 200), s1)))
    \<and> (follow_rows s fid uid = [] \<and> in_store_range fid \<and> in_store_range uid \<longrightarrow>
         unfollow_user s uid (Some fid) = Inr ((Message ''Not following'', 200), s))
    \<and> (fid \<noteq> uid \<and> \<not> (in_store_range fid \<and> in_store_range uid) \<longrightarrow>
         follow_user s uid (Some \<lparr>follower_id_key = Val (IntId fid)\<rparr>) = Inl OverflowError)
    \<and> (\<not> (in_store_range fid \<and> in_store_range uid) \<longrightarrow>
         unfollow_user s uid (Some fid) = Inl OverflowError)"
proof -
  let ?d = "Some \<lparr>follower_id_key = Val (IntId fid)\<rparr>"
  have inv: "follows_ok (serve s rs)"
    using assms
    by (intro serve_invariant [where I = follows_ok and P = integer_ids] follows_ok_handle)
  have self: "\<forall>r \<in> set (follows (serve s rs)). follower_id r \<noteq> IntId (followee_id r)"
    using inv by (simp add: follows_ok_iff)
  have one: "length (follow_rows (serve s rs) fid uid) \<le> 1"
    by (rule follows_ok_le_one [OF inv])
  have twice: "case follow_user s uid ?d of
            Inl err \<Rightarrow> False
          | Inr (resp, s1) \<Rightarrow>
              snd resp = 200
              \<and> length (follow_rows s1 fid uid) = 1
              \<and> follow_user s1 uid ?d = Inr ((Message ''Already following'', 200), s1)"
    if ne: "fid \<noteq> uid" and rf: "in_store_range fid" and ru: "in_store_range uid"
  proof (cases "follow_rows s fid uid = []")
    case True
    let ?s1 = "s\<lparr>follows := follows s @ [\<lparr>follower_id = IntId fid, followee_id = uid\<rparr>]\<rparr>"
    have f: "follow_user s uid ?d = Inr ((Message ''Followed'', 200), ?s1)"
      by (rule follow_user_fresh [OF ne rf ru True])
    have rows: "follow_rows ?s1 fid uid = [\<lparr>follower_id = IntId fid, followee_id = uid\<rparr>]"
      using True by (simp add: follow_rows_def)
    then have p: "follow_rows ?s1 fid uid \<noteq> []" by simp
    show ?thesis
      unfolding f using rows follow_user_existing [OF ne rf ru p] by simp
  next
    case False
    have f: "follow_user s uid ?d = Inr ((Message ''Already following'', 200), s)"
      by (rule follow_user_existing [OF ne rf ru False])
    have le: "length (follow_rows s fid uid) \<le> 1" by (rule follows_ok_le_one [OF assms(1)])
    have pos: "0 < length (follow_rows s fid uid)" using False by simp
    have "length (follow_rows s fid uid) = 1" using le pos by linarith
    then show ?thesis unfolding f using f by simp
  qed
  show ?thesis
    using inv self one twice follow_user_self [of s uid] unfollow_user_absent [of fid uid s]
      follow_user_overflow [of fid uid s] unfollow_user_overflow [of fid uid s]
    by blast
qed

text \<open>
  The claim as the specification states it fails for the follower id \<open>2\<^sup>6\<^sup>3\<close>: the pair
  has no row, and the unfollow is not a success.
\<close>

theorem unfollow_huge_id_counterexample:
  "follow_rows club (2 ^ 63) 2 = []
   \<and> unfollow_user club 2 (Some (2 ^ 63)) = Inl OverflowError"
proof -
  have e: "follow_rows club (2 ^ 63) 2 = []" by (simp add: follow_rows_def club_def)
  have r: "\<not> (in_store_range (2 ^ 63) \<and> in_store_range 2)"
    using store_range_examples(7) by blast
  show ?thesis using e unfollow_user_overflow [OF r] by blast
qed

theorem follow_state_invariants_witness:
  "follows_ok club
   \<and> follow_user club 2 (Some \<lparr>follower_id_key = Val (IntId 2)\<rparr>)
       = Inr ((Error ''cannot follow self'', 400), club)
   \<and> follow_user (club\<lparr>follows := [\<lparr>follower_id = IntId 1, followee_id = 2\<rparr>]\<rparr>) 2
        (Some \<lparr>follower_id_key = Val (IntId 1)\<rparr>)
       = Inr ((Message ''Already following'', 200),
              club\<lparr>follows := [\<lparr>follower_id = IntId 1, followee_id = 2\<rparr>]\<rparr>)
   \<and> unfollow_user club 2 (Some 1) = Inr ((Message ''Not following'', 200), club)
   \<and> follows_ok (serve club [Follow 2 (Some \<lparr>follower_id_key = Val (IntId 1)\<rparr>),
                              Follow 2 (Some \<lparr>follower_id_key = Val (IntId 1)\<rparr>),
                              Unfollow 2 (Some 1), Unfollow 2 (Some 1)])"
proof -
  let ?d = "Some \<lparr>follower_id_key = Val (IntId 1)\<rparr>"
  let ?rs = "[Follow 2 ?d, Follow 2 ?d, Unfollow 2 (Some 1), Unfollow 2 (Some 1)]"
  let ?s1 = "club\<lparr>follows := [\<lparr>follower_id = IntId 1, followee_id = 2\<rparr>]\<rparr>"
  have ok: "follows_ok club" by (simp add: follows_ok_def club_def)
  have ids: "list_all integer_ids ?rs" by simp
  have e: "follow_rows club 1 2 = []" by (simp add: follow_rows_def club_def)
  have ne: "(1::int) \<noteq> 2" by simp
  have f1: "follow_user club 2 ?d = Inr ((Message ''Followed'', 200), ?s1)"
    using follow_user_fresh [OF ne store_range_examples(1) store_range_examples(2) e]
    by (simp add: club_def)
  note t = follow_state_invariants [OF ok ids, of 1 2]
  from t ne have two: "follow_user ?s1 2 ?d = Inr ((Message ''Already following'', 200), ?s1)"
    unfolding f1 by (simp add: store_range_examples)
  from t have self: "follow_user club 2 (Some \<lparr>follower_id_key = Val (IntId 2)\<rparr>)
        = Inr ((Error ''cannot follow self'', 400), club)"
    by blast
  from t e have un: "unfollow_user club 2 (Some 1) = Inr ((Message ''Not following'', 200), club)"
    by (simp add: store_range_examples)
  from t have inv: "follows_ok (serve club ?rs)" by blast
  show ?thesis using ok self two un inv by blast
qed

text \<open>
  Outside the amended claim: a follower id given as a JSON string is not equal to the
  integer of the path, so the self-follow guard lets it pass, and where the store reads
  the text as that integer the row it writes has equal follower and followee.
\<close>

lemma follow_text_id_passes_guard:
  "follow_user club 2 (Some \<lparr>follower_id_key = Val (TextId ''2'')\<rparr>)
     = Inr ((Message ''Followed'', 200),
            club\<lparr>follows := [\<lparr>follower_id = IntId 2, followee_id = 2\<rparr>]\<rparr>)"
proof -
  have a: "text_affinity club ''2'' = Some 2"
    by (simp add: club_def decimal_text_def)
  have e: "follow_rows club 2 2 = []" by (simp add: follow_rows_def club_def)
  show ?thesis
    using follow_user_text [OF a store_range_examples(2) e] by (simp add: club_def)
qed

text \<open>
  Claim C9. A join without a user id is never compared with the existing rows: whenever
  the event exists, the player name is given, the event has room and the store commits,
  it appends a new row without user id, whatever rows the event already has, and the
  participant count of the event grows by one.
\<close>

theorem anonymous_join_always_adds_a_row:
  assumes "get_event s eid = Some ev"
    and "get (player_name_key d) = Some pn" and "pn \<noteq> []"
    and "get (user_id_key d) = None"
    and "int (count_participants s ev) < max_players ev"
  shows "join_event s eid (Some d) Committed =
           ((MessageEvent ''Successfully joined event''
               (to_dict (s\<lparr>participants := participants s @ [new_row eid d pn]\<rparr>) ev), 200),
            s\<lparr>participants := participants s @ [new_row eid d pn]\<rparr>)
    \<and> user_id (new_row eid d pn) = None \<and> player_name (new_row eid d pn) = pn
    \<and> event_id (new_row eid d pn) = eid
    \<and> count_participants (snd (join_event s eid (Some d) Committed)) ev
        = count_participants s ev + 1"
proof -
  have room: "\<not> max_players ev \<le> int (count_participants s ev)" using assms(5) by simp
  have j: "join_event s eid (Some d) Committed =
           ((MessageEvent ''Successfully joined event''
               (to_dict (s\<lparr>participants := participants s @ [new_row eid d pn]\<rparr>) ev), 200),
            s\<lparr>participants := participants s @ [new_row eid d pn]\<rparr>)"
    using join_event_new [OF assms(1-3) room] assms(4) by simp
  have i: "ev_id ev = eid" using get_event_Some(2) [OF assms(1)] .
  have c: "count_participants (s\<lparr>participants := participants s @ [new_row eid d pn]\<rparr>) ev
             = count_participants s ev + 1"
    using i by (simp add: count_participants_append new_row_def)
  show ?thesis using j c assms(4) by (simp add: new_row_def)
qed

text \<open>
  A guest named as an existing guest row joins again: two equal rows, count 2.
\<close>

theorem anonymous_join_always_adds_a_row_witness:
  "participants (snd (join_event (club\<lparr>participants := [guest_row 8]\<rparr>) 8 (Some guest) Committed))
     = [guest_row 8, guest_row 8]
   \<and> count_participants
        (snd (join_event (club\<lparr>participants := [guest_row 8]\<rparr>) 8 (Some guest) Committed)) league
       = 2"
proof -
  let ?s = "club\<lparr>participants := [guest_row 8]\<rparr>"
  have c: "count_participants ?s league = 1"
    by (simp add: count_participants_def guest_row_def club_fields)
  have r: "new_row 8 guest ''Guest'' = guest_row 8"
    by (simp add: new_row_def guest_row_def guest_def)
  have room: "int (count_participants ?s league) < max_players league"
    using c by (simp add: club_fields)
  have n: "''Guest'' \<noteq> []" by simp
  note t = anonymous_join_always_adds_a_row
    [OF club_events(2) data_fields(5) n data_fields(6) room]
  from t have j: "snd (join_event ?s 8 (Some guest) Committed)
      = ?s\<lparr>participants := participants ?s @ [new_row 8 guest ''Guest'']\<rparr>"
    by simp
  from t have k: "count_participants (snd (join_event ?s 8 (Some guest) Committed)) league
      = count_participants ?s league + 1"
    by blast
  show ?thesis using j k c by (simp add: r)
qed

text \<open>
  Claim C10. \<open>join_event\<close> never answers 201. Its two successful answers, the new
  membership and the repeated join, both carry status 200; every other answer is an error
  with status 400, 409 or 500, or the 404 of a missing event.
\<close>

theorem join_never_answers_201:
  "snd (fst (join_event s eid data oc)) \<noteq> 201
   \<and> (case fst (fst (join_event s eid data oc)) of
         MessageEvent m e \<Rightarrow>
           snd (fst (join_event s eid data oc)) = 200
           \<and> (m = ''Already joined'' \<or> m = ''Successfully joined event'')
       | Error m \<Rightarrow> snd (fst (join_event s eid data oc)) \<in> {400, 409, 500}
       | NotFound \<Rightarrow> snd (fst (join_event s eid data oc)) = 404
       | Message m \<Rightarrow> False)"
  by (simp add: join_event_def Let_def split: option.splits commit.splits)

theorem join_never_answers_201_witness:
  "snd (fst (join_event club 7 (Some ann) Committed)) = 200
   \<and> snd (fst (join_event (club\<lparr>participants := [ann_row 8]\<rparr>) 8 (Some ann) Committed)) = 200"
proof -
  let ?s = "club\<lparr>participants := [ann_row 8]\<rparr>"
  have n: "fst (fst (join_event club 7 (Some ann) Committed))
             = MessageEvent ''Successfully joined event''
                 (to_dict (club\<lparr>participants := [ann_row 7]\<rparr>) pickup)"
    by (simp add: club_join_ann_7)
  have m: "memberships ?s 8 5 \<noteq> []" by (simp add: memberships_def ann_row_def)
  have c: "\<not> max_players league \<le> int (count_participants ?s league)"
    by (simp add: count_participants_def ann_row_def club_fields)
  have o: "fst (fst (join_event ?s 8 (Some ann) Committed))
             = MessageEvent ''Already joined'' (to_dict ?s league)"
    using join_event_member [OF club_events(2) data_fields(1) _ c data_fields(2) m] by simp
  show ?thesis
    using join_never_answers_201 [of club 7 "Some ann" Committed]
      join_never_answers_201 [of ?s 8 "Some ann" Committed]
    by (simp add: n o)
qed


end
